theory Spec2Isabelle
  imports Main "HOL-Library.AList"
begin

section \<open>Results, exceptions and sequential programs\<close>

text \<open>
  The scraper (\<^verbatim>\<open>src/scraper.py\<close>, class \<^verbatim>\<open>WebScraper\<close>) is a sequence of calls
  into a browser, the file system and the network. Two kinds of Python exception matter
  to its control flow: those below \<^verbatim>\<open>Exception\<close>, which the clause
  \<^verbatim>\<open>except Exception\<close> catches, and \<^verbatim>\<open>KeyboardInterrupt\<close>, which it does not.
  The string carried by \<open>Exception\<close> is the text that \<^verbatim>\<open>print(e)\<close> shows.
\<close>

datatype exn = Exception string | KeyboardInterrupt

datatype 'a result = Ret 'a | Raise exn

type_synonym ('s, 'a) prog = "'s \<Rightarrow> 'a result \<times> 's"

definition ret :: "'a \<Rightarrow> ('s, 'a) prog" where
  "ret v s = (Ret v, s)"

definition andthen :: "('s, 'a) prog \<Rightarrow> ('a \<Rightarrow> ('s, 'b) prog) \<Rightarrow> ('s, 'b) prog" where
  "andthen m k s = (case m s of (Ret v, s') \<Rightarrow> k v s' | (Raise e, s') \<Rightarrow> (Raise e, s'))"

text \<open>\<^verbatim>\<open>try: m  except Exception: h\<close>. A \<open>KeyboardInterrupt\<close> passes through.\<close>

definition except_Exception :: "('s, 'a) prog \<Rightarrow> (string \<Rightarrow> ('s, 'a) prog) \<Rightarrow> ('s, 'a) prog" where
  "except_Exception m h s =
     (case m s of
        (Ret v, s') \<Rightarrow> (Ret v, s')
      | (Raise (Exception msg), s') \<Rightarrow> h msg s'
      | (Raise KeyboardInterrupt, s') \<Rightarrow> (Raise KeyboardInterrupt, s'))"

text \<open>
  \<^verbatim>\<open>try: m  except KeyboardInterrupt: hk  except Exception as e: he\<close>. What a handler
  raises is not caught again.
\<close>

definition except_both ::
  "('s, 'a) prog \<Rightarrow> ('s, 'a) prog \<Rightarrow> (string \<Rightarrow> ('s, 'a) prog) \<Rightarrow> ('s, 'a) prog" where
  "except_both m hk he s =
     (case m s of
        (Ret v, s') \<Rightarrow> (Ret v, s')
      | (Raise KeyboardInterrupt, s') \<Rightarrow> hk s'
      | (Raise (Exception msg), s') \<Rightarrow> he msg s')"

text \<open>
  Modelled from the spec: the decorator \<^verbatim>\<open>Utils.loading\<close> (module \<^verbatim>\<open>utils\<close>, absent
  from the sources) shows progress messages around the call; it is taken to call the
  decorated method once and to hand its result, or its exception, on unchanged.
\<close>

definition loading :: "('s, 'a) prog \<Rightarrow> ('s, 'a) prog" where
  "loading f = f"

section \<open>Names from links\<close>

text \<open>
  \<^verbatim>\<open>href.split("/")\<close>: the pieces of a string between the occurrences of the separator;
  the list is never empty.
\<close>

fun str_split :: "char \<Rightarrow> string \<Rightarrow> string list" where
  "str_split sep [] = [[]]"
| "str_split sep (c # cs) =
     (if c = sep then [] # str_split sep cs
      else (case str_split sep cs of [] \<Rightarrow> [[c]] | p # ps \<Rightarrow> (c # p) # ps))"

text \<open>
  A \<^verbatim>\<open>WebElement\<close> is seen by the scraper through the links it contains: it is modelled
  by the \<^verbatim>\<open>href\<close> attribute of each contained \<^verbatim>\<open>a\<close> element, in document order,
  \<open>None\<close> where the attribute is missing (\<^verbatim>\<open>get_attribute\<close> returns \<^verbatim>\<open>None\<close>, and
  \<^verbatim>\<open>None.split\<close> raises \<^verbatim>\<open>AttributeError\<close>).
\<close>

type_synonym element = "string option list"

fun names_of_hrefs :: "string option list \<Rightarrow> string list result" where
  "names_of_hrefs [] = Ret []"
| "names_of_hrefs (None # hrefs) = Raise (Exception ''AttributeError'')"
| "names_of_hrefs (Some href # hrefs) =
     (case names_of_hrefs hrefs of
        Ret names \<Rightarrow> Ret (last (str_split CHR ''/'' href) # names)
      | Raise e \<Rightarrow> Raise e)"

definition get_names_from_html :: "element \<Rightarrow> string list result" where
  "get_names_from_html html =
     (case names_of_hrefs html of
        Ret names \<Rightarrow> Ret (filter (\<lambda>name. name \<noteq> ''datasheets.html'') names)
      | Raise e \<Rightarrow> Raise e)"

section \<open>The surroundings of the scraper\<close>

text \<open>
  Every call that leaves the program (browser driver, file system, network, sleep) is an
  external call. The surroundings are a parameter \<open>E\<close>: for the \<open>t\<close>-th external call of a run
  they say whether it raises and what it answers. Each external call advances \<open>clock\<close> by
  one, so the same call may be answered differently at different moments. An interruption
  by the user (\<^verbatim>\<open>KeyboardInterrupt\<close>) is taken to arrive inside an external call, where
  the program spends its time.
\<close>

datatype call =
    NewBrowser
  | Quit
  | Makedirs string
  | PathExists string
  | HttpGet string
  | WriteFile string
  | InstallAddon string
  | Get string
  | WaitClickable string
  | WaitPresence string
  | Click
  | Hover
  | Sleep
  | FindElements string
  | ExecuteScript string
  | Screenshot string
  | SaveJson string
  | LoadDictionary string

text \<open>
  The Index: a Python \<^verbatim>\<open>dict\<close> from faction name to list of unit names, as an
  association list in key order, read with \<open>map_of\<close> and written with \<open>AList.update\<close>
  (which keeps the place of a key that is present and appends a new one).
\<close>

type_synonym index = "(string \<times> string list) list"

text \<open>
  The field \<open>load_dictionary_if_exists\<close> stands for \<^verbatim>\<open>Utils.load_dictionary_if_exists\<close>,
  whose code is not among the sources: it is left arbitrary, a function of the files and of
  the directory it is given, \<open>None\<close> when it finds no dictionary.
\<close>

record env =
  raises :: "nat \<Rightarrow> call \<Rightarrow> exn option"
  located :: "nat \<Rightarrow> string \<Rightarrow> element"
  found :: "nat \<Rightarrow> string \<Rightarrow> element list"
  path_exists :: "nat \<Rightarrow> string \<Rightarrow> bool"
  load_dictionary_if_exists :: "(string \<rightharpoonup> index) \<Rightarrow> string \<Rightarrow> index option"

text \<open>
  What a run can change: the files holding dictionaries (\<open>disk\<close>, by path), the card
  pictures written so far (\<open>shots\<close>, the paths in the order of writing), the lines printed
  by \<^verbatim>\<open>print\<close>, and the fields of the \<^verbatim>\<open>WebScraper\<close> object.
\<close>

record world =
  clock :: nat
  disk :: "string \<rightharpoonup> index"
  shots :: "string list"
  printed :: "string list"
  check_for_cookies :: bool
  factions_names :: "string list"
  factions_dict :: index

definition output_dir :: string where
  "output_dir = ''./out/factions/''"

definition source_dir :: string where
  "source_dir = ''./out/source/''"

definition base_url :: string where
  "base_url = ''https://wahapedia.ru/wh40k10ed/''"

definition factions_url :: string where
  "factions_url = base_url @ ''factions/''"

definition home_url :: string where
  "home_url = ''https://wahapedia.ru/wh40k10ed/the-rules/quick-start-guide/''"

text \<open>The XPath \<^verbatim>\<open>//*[@id="..."]\<close> of the element with the given id.\<close>

definition by_id :: "string \<Rightarrow> string" where
  "by_id ident = ''//*[@id='' @ [CHR 0x22] @ ident @ [CHR 0x22] @ '']''"

definition card_xpath :: string where
  "card_xpath = by_id ''wrapper'' @ ''/div[4]''"

definition remove_button_script :: string where
  "remove_button_script =
     CHR 0x0A # ''            document.querySelector('' @ [CHR 0x22] @ ''#btnArmyList'' @
     [CHR 0x22] @ '').remove();'' @ CHR 0x0A # ''            ''"

definition extern :: "env \<Rightarrow> call \<Rightarrow> (world, unit) prog" where
  "extern E c w =
     (case raises E (clock w) c of
        Some e \<Rightarrow> (Raise e, w\<lparr>clock := Suc (clock w)\<rparr>)
      | None \<Rightarrow> (Ret (), w\<lparr>clock := Suc (clock w)\<rparr>))"

definition andalso :: "('s, 'a) prog \<Rightarrow> ('s, 'b) prog \<Rightarrow> ('s, 'b) prog" where
  "andalso m k = andthen m (\<lambda>_. k)"

definition of_result :: "'a result \<Rightarrow> ('s, 'a) prog" where
  "of_result r s = (r, s)"

definition print :: "string \<Rightarrow> (world, unit) prog" where
  "print line w = (Ret (), w\<lparr>printed := printed w @ [line]\<rparr>)"

text \<open>\<^verbatim>\<open>WebDriverWait(self.driver, 5).until(EC...((By.XPATH, xpath)))\<close>\<close>

definition wait_until :: "env \<Rightarrow> call \<Rightarrow> string \<Rightarrow> (world, element) prog" where
  "wait_until E c xpath w = andthen (extern E c) (\<lambda>_. ret (located E (clock w) xpath)) w"

definition find_elements :: "env \<Rightarrow> string \<Rightarrow> (world, element list) prog" where
  "find_elements E xpath w =
     andthen (extern E (FindElements xpath)) (\<lambda>_. ret (found E (clock w) xpath)) w"

definition os_path_exists :: "env \<Rightarrow> string \<Rightarrow> (world, bool) prog" where
  "os_path_exists E path w =
     andthen (extern E (PathExists path)) (\<lambda>_. ret (path_exists E (clock w) path)) w"

definition screenshot :: "env \<Rightarrow> string \<Rightarrow> (world, unit) prog" where
  "screenshot E path =
     andthen (extern E (Screenshot path)) (\<lambda>_ w. (Ret (), w\<lparr>shots := shots w @ [path]\<rparr>))"

text \<open>
  Modelled from the spec: \<^verbatim>\<open>Utils.save_dict_to_json\<close> is not among the sources; it
  persists the mapping under the given path, replacing what was there.
\<close>

definition save_dict_to_json :: "env \<Rightarrow> index \<Rightarrow> string \<Rightarrow> (world, unit) prog" where
  "save_dict_to_json E d path =
     andthen (extern E (SaveJson path)) (\<lambda>_ w. (Ret (), w\<lparr>disk := (disk w)(path \<mapsto> d)\<rparr>))"

definition load_dictionary :: "env \<Rightarrow> string \<Rightarrow> (world, index option) prog" where
  "load_dictionary E dir =
     andthen (extern E (LoadDictionary dir))
       (\<lambda>_ w. (Ret (load_dictionary_if_exists E (disk w) dir), w))"


section \<open>The session\<close>

text \<open>
  The methods below have the shape \<^verbatim>\<open>try: ...; return 0  except Exception: return 1\<close>;
  the \<^verbatim>\<open>try\<close> block of each is named apart.
\<close>

definition ensure_dirs_exist_try :: "env \<Rightarrow> (world, int) prog" where
  "ensure_dirs_exist_try E =
     andalso (extern E (Makedirs output_dir))
    (andalso (extern E (Makedirs source_dir))
    (ret 0))"

definition ensure_dirs_exist :: "env \<Rightarrow> (world, int) prog" where
  "ensure_dirs_exist E = loading (except_Exception (ensure_dirs_exist_try E) (\<lambda>_. ret 1))"

definition ublock_url :: string where
  "ublock_url =
     ''https://addons.mozilla.org/firefox/downloads/latest/ublock-origin/addon-1318898-latest.xpi''"

definition ublock_path :: string where
  "ublock_path = ''./docs/assets/extensions/ublock_origin.xpi''"

definition install_ublock_try :: "env \<Rightarrow> (world, int) prog" where
  "install_ublock_try E =
     andthen (os_path_exists E ublock_path) (\<lambda>present.
     andalso (if \<not> present
              then andalso (extern E (HttpGet ublock_url)) (extern E (WriteFile ublock_path))
              else ret ())
    (andalso (extern E (InstallAddon ublock_path))
    (ret 0)))"

definition install_ublock :: "env \<Rightarrow> (world, int) prog" where
  "install_ublock E = loading (except_Exception (install_ublock_try E) (\<lambda>_. ret 1))"

definition close_session_try :: "env \<Rightarrow> (world, int) prog" where
  "close_session_try E = andalso (extern E Quit) (ret 0)"

definition close_session :: "env \<Rightarrow> (world, int) prog" where
  "close_session E = loading (except_Exception (close_session_try E) (\<lambda>_. ret 1))"

text \<open>
  One \<^verbatim>\<open>try\<close> block of \<^verbatim>\<open>remove_cookies\<close>: wait for the button, click it; the handler
  leaves the method with 1 (\<open>Some 1\<close>), the block otherwise falls through (\<open>None\<close>).
\<close>

definition click_button :: "env \<Rightarrow> string \<Rightarrow> (world, int option) prog" where
  "click_button E xpath =
     except_Exception
       (andthen (wait_until E (WaitClickable xpath) xpath) (\<lambda>button.
        andalso (extern E Click)
       (ret None)))
       (\<lambda>_. ret (Some 1))"

definition remove_cookies :: "env \<Rightarrow> (world, int) prog" where
  "remove_cookies E =
     loading (\<lambda>w.
       if \<not> check_for_cookies w then ret 0 w
       else
         (andalso (extern E (Get home_url))
         (andthen (click_button E (by_id ''ez-manage-settings'')) (\<lambda>left.
            case left of
              Some code \<Rightarrow> ret code
            | None \<Rightarrow>
                andthen (click_button E (by_id ''ez-save-settings'')) (\<lambda>left.
                  case left of
                    Some code \<Rightarrow> ret code
                  | None \<Rightarrow> (\<lambda>w. (Ret 0, w\<lparr>check_for_cookies := False\<rparr>)))))) w)"

definition init_session :: "env \<Rightarrow> (world, unit) prog" where
  "init_session E =
     andalso (extern E NewBrowser)
    (andalso (ensure_dirs_exist E)
    (andalso (install_ublock E)
    (andalso (remove_cookies E)
    (ret ()))))"

section \<open>Enumerating the Index\<close>

definition menu_xpath :: string where
  "menu_xpath = ''/html/body/div[1]/div[1]/div[1]/div[1]/div[2]/div[5]/div[2]/div''"

definition fetch_factions_names_try :: "env \<Rightarrow> (world, int) prog" where
  "fetch_factions_names_try E =
     andalso (extern E (Get home_url))
    (andthen (wait_until E (WaitPresence menu_xpath) menu_xpath) (\<lambda>menu.
     andthen (of_result (get_names_from_html menu)) (\<lambda>names w.
       (Ret 0, w\<lparr>factions_names := names\<rparr>))))"

definition fetch_factions_names :: "env \<Rightarrow> (world, int) prog" where
  "fetch_factions_names E =
     loading (except_Exception (fetch_factions_names_try E) (\<lambda>_. ret 1))"

text \<open>\<^verbatim>\<open>tooltip[1]\<close> raises \<^verbatim>\<open>IndexError\<close> on a list of fewer than two elements.\<close>

definition second :: "element list \<Rightarrow> element result" where
  "second tooltip =
     (if length tooltip < 2 then Raise (Exception ''IndexError'') else Ret (tooltip ! 1))"

definition fetch_units_names_from_faction_try :: "env \<Rightarrow> string \<Rightarrow> (world, int) prog" where
  "fetch_units_names_from_faction_try E faction_name =
     andalso (extern E (Get (factions_url @ faction_name)))
    (andthen (wait_until E (WaitPresence (by_id ''btnArmyList'')) (by_id ''btnArmyList''))
       (\<lambda>button.
     andalso (extern E Hover)
    (andalso (extern E Sleep)
    (andthen (find_elements E (by_id ''tooltip_contentArmyList'')) (\<lambda>tooltip.
     andthen (of_result (second tooltip)) (\<lambda>html.
     andthen (of_result (get_names_from_html html)) (\<lambda>names w.
       (Ret 0, w\<lparr>factions_dict := AList.update faction_name names (factions_dict w)\<rparr>))))))))"

definition fetch_units_names_from_faction :: "env \<Rightarrow> string \<Rightarrow> (world, int) prog" where
  "fetch_units_names_from_faction E faction_name =
     loading (except_Exception (fetch_units_names_from_faction_try E faction_name) (\<lambda>_. ret 1))"


definition index_path :: string where
  "index_path = source_dir @ ''index''"

definition temp_path :: string where
  "temp_path = source_dir @ ''temp''"

definition interrupted_msg :: string where
  "interrupted_msg = CHR 0x0A # ''Process interrupted by user.''"



section \<open>Capturing the cards\<close>

definition card_url :: "string \<Rightarrow> string \<Rightarrow> string" where
  "card_url faction unit = factions_url @ faction @ ''/'' @ unit"

definition card_path :: "string \<Rightarrow> string \<Rightarrow> string" where
  "card_path faction unit = output_dir @ faction @ ''/'' @ unit @ ''.png''"

definition fetch_card_from_unit :: "env \<Rightarrow> string \<Rightarrow> string \<Rightarrow> (world, unit) prog" where
  "fetch_card_from_unit E faction unit =
     andalso (extern E (Get (card_url faction unit)))
    (andalso (extern E (ExecuteScript remove_button_script))
    (andalso (extern E (Makedirs (output_dir @ faction)))
    (andthen (wait_until E (WaitPresence card_xpath) card_xpath)
       (\<lambda>data_card.
     screenshot E (card_path faction unit)))))"

text \<open>
  The local variable \<^verbatim>\<open>cards_to_fetch\<close> refers to one dictionary that the capture
  methods change in place; programs that use it run on the pair of that dictionary and the
  world. \<open>on_world\<close> runs a program that does not touch the dictionary.
\<close>

definition on_world :: "(world, 'a) prog \<Rightarrow> (index \<times> world, 'a) prog" where
  "on_world m s = (case m (snd s) of (r, w') \<Rightarrow> (r, (fst s, w')))"

text \<open>\<^verbatim>\<open>cards_to_fetch[faction]\<close>: \<^verbatim>\<open>KeyError\<close> when the key is missing.\<close>

definition lookup :: "string \<Rightarrow> (index \<times> world, string list) prog" where
  "lookup faction s =
     (case map_of (fst s) faction of
        None \<Rightarrow> (Raise (Exception ''KeyError''), s)
      | Some units \<Rightarrow> (Ret units, s))"

text \<open>\<^verbatim>\<open>cards_to_fetch[faction].remove(unit)\<close>: the first occurrence goes;
  \<^verbatim>\<open>ValueError\<close> when there is none.\<close>

definition remove_unit :: "string \<Rightarrow> string \<Rightarrow> (index \<times> world, unit) prog" where
  "remove_unit faction unit =
     andthen (lookup faction) (\<lambda>units s.
       if unit \<in> set units
       then (Ret (), (AList.update faction (remove1 unit units) (fst s), snd s))
       else (Raise (Exception ''ValueError''), s))"

text \<open>\<^verbatim>\<open>while units_queue: unit = units_queue.pop(0); ...\<close> on the copy \<open>units_queue\<close>.\<close>

fun units_loop :: "env \<Rightarrow> string \<Rightarrow> string list \<Rightarrow> (index \<times> world, unit) prog" where
  "units_loop E faction [] = ret ()"
| "units_loop E faction (unit # units_queue) =
     andalso (on_world (fetch_card_from_unit E faction unit))
    (andalso (remove_unit faction unit)
    (units_loop E faction units_queue))"

definition fetch_all_cards_from_faction_logic :: "env \<Rightarrow> string \<Rightarrow> (index \<times> world, int) prog" where
  "fetch_all_cards_from_faction_logic E faction =
     loading (except_Exception
       (andthen (lookup faction) (\<lambda>units_queue.
        andalso (units_loop E faction units_queue)
       (ret 0)))
       (\<lambda>_. ret 1))"

text \<open>Runs a program on a fresh local dictionary; the dictionary is dropped at the end.\<close>

definition with_local :: "index \<Rightarrow> (index \<times> world, 'a) prog \<Rightarrow> (world, 'a) prog" where
  "with_local d m w = (case m (d, w) of (r, s') \<Rightarrow> (r, snd s'))"

definition fetch_all_cards_from_faction :: "env \<Rightarrow> string \<Rightarrow> (world, int) prog" where
  "fetch_all_cards_from_faction E faction =
     except_both
       (andalso (init_session E)
       (andthen (load_dictionary E source_dir) (\<lambda>cards_to_fetch.
          case cards_to_fetch of
            None \<Rightarrow>
              andalso (print ''No dictionary found. Please fetch the indexes first.'') (ret 1)
          | Some loaded \<Rightarrow>
              (case map_of loaded faction of
                 None \<Rightarrow> andalso (print ''The faction does not exist in the dictionary.'') (ret 1)
               | Some units \<Rightarrow>
                   andalso (with_local [(faction, units)]
                              (fetch_all_cards_from_faction_logic E faction))
                  (andalso (close_session E)
                  (ret 0))))))
       (andalso (print interrupted_msg) (andalso (close_session E) (ret 1)))
       (\<lambda>e. andalso (close_session E) (andalso (print e) (ret 1)))"

text \<open>\<^verbatim>\<open>for faction in cards_to_fetch.keys(): ...\<close>; the keys do not change meanwhile.\<close>

fun factions_loop :: "env \<Rightarrow> string list \<Rightarrow> (index \<times> world, unit) prog" where
  "factions_loop E [] = ret ()"
| "factions_loop E (faction # rest) =
     andalso (fetch_all_cards_from_faction_logic E faction) (factions_loop E rest)"

definition fetch_all_cards_logic :: "env \<Rightarrow> (index \<times> world, int) prog" where
  "fetch_all_cards_logic E =
     except_Exception
       (andalso (\<lambda>s. factions_loop E (map fst (fst s)) s)
       (ret 0))
       (\<lambda>_. ret 1)"

text \<open>The \<^verbatim>\<open>try\<close> block of \<^verbatim>\<open>fetch_all_cards\<close>.\<close>

definition fetch_all_cards_try :: "env \<Rightarrow> (index \<times> world, int) prog" where
  "fetch_all_cards_try E =
     andalso (on_world (init_session E))
    (andalso (fetch_all_cards_logic E)
    (andalso (on_world (close_session E))
    (ret 0)))"

text \<open>\<^verbatim>\<open>Utils.save_dict_to_json(cards_to_fetch, self.source_dir + "temp")\<close>\<close>

definition save_temp :: "env \<Rightarrow> (index \<times> world, unit) prog" where
  "save_temp E s = on_world (save_dict_to_json E (fst s) temp_path) s"

definition fetch_all_cards :: "env \<Rightarrow> (world, int) prog" where
  "fetch_all_cards E =
     andthen (load_dictionary E source_dir) (\<lambda>cards_to_fetch.
       case cards_to_fetch of
         None \<Rightarrow> andalso (print ''No dictionary found. Please fetch the indexes first.'') (ret 1)
       | Some loaded \<Rightarrow>
           with_local loaded
             (except_both
                (fetch_all_cards_try E)
                (andalso (on_world (print
                   (CHR 0x0A # ''Process interrupted by user. The dictionary will be saved to temp.json.'')))
                (andalso (on_world (close_session E))
                (andalso (save_temp E)
                (ret 1))))
                (\<lambda>e.
                 andalso (on_world (print
                   ''An error occurred. The dictionary will be saved to temp.json.''))
                (andalso (on_world (print e))
                (andalso (on_world (close_session E))
                (andalso (save_temp E)
                (ret 1)))))))"

section \<open>Notions used in the statements\<close>

text \<open>\<open>after_last_slash href name\<close>: \<open>name\<close> is what follows the last \<^verbatim>\<open>/\<close> of \<open>href\<close>
  (all of \<open>href\<close> when it has none).\<close>

definition after_last_slash :: "string \<Rightarrow> string \<Rightarrow> bool" where
  "after_last_slash href name \<longleftrightarrow>
     CHR ''/'' \<notin> set name \<and>
     (href = name \<or>
      (length name < length href \<and>
       drop (length href - Suc (length name)) href = CHR ''/'' # name))"

text \<open>The units of one faction among captured (faction, unit) pairs, in order.\<close>

definition units_of :: "string \<Rightarrow> (string \<times> string) list \<Rightarrow> string list" where
  "units_of faction caps = map snd (filter (\<lambda>p. fst p = faction) caps)"

definition card_paths :: "(string \<times> string) list \<Rightarrow> string list" where
  "card_paths caps = map (\<lambda>p. card_path (fst p) (snd p)) caps"

text \<open>A program of the world that writes no dictionary file and no card picture.\<close>

definition silent :: "(world, 'a) prog \<Rightarrow> bool" where
  "silent m \<longleftrightarrow>
     (\<forall>w. disk (snd (m w)) = disk w \<and> shots (snd (m w)) = shots w \<and>
          clock w \<le> clock (snd (m w)))"

text \<open>How a dictionary \<open>d'\<close> and a list of captured pairs account for a dictionary \<open>d\<close>.\<close>

definition accounts :: "index \<Rightarrow> (string \<times> string) list \<Rightarrow> index \<Rightarrow> bool" where
  "accounts d caps d' \<longleftrightarrow>
     (\<forall>p\<in>set caps. map_of d (fst p) \<noteq> None) \<and>
     (\<forall>f. case map_of d f of
            None \<Rightarrow> map_of d' f = None
          | Some queue \<Rightarrow> \<exists>rest. map_of d' f = Some rest \<and> queue = units_of f caps @ rest)"

text \<open>A program that never ends with an interruption by the user.\<close>

definition uninterrupted :: "('s, 'a) prog \<Rightarrow> bool" where
  "uninterrupted m \<longleftrightarrow> (\<forall>s. fst (m s) \<noteq> Raise KeyboardInterrupt)"

text \<open>The result of a method \<^verbatim>\<open>try: ...; return 0  except Exception: return 1\<close>, from the
  result of its \<^verbatim>\<open>try\<close> block.\<close>

definition signal :: "int result \<Rightarrow> int result" where
  "signal r =
     (case r of
        Ret _ \<Rightarrow> Ret 0
      | Raise (Exception _) \<Rightarrow> Ret 1
      | Raise KeyboardInterrupt \<Rightarrow> Raise KeyboardInterrupt)"

text \<open>A program whose only return value is 0.\<close>

definition returns_zero :: "('s, int) prog \<Rightarrow> bool" where
  "returns_zero m \<longleftrightarrow> (\<forall>s. case fst (m s) of Ret v \<Rightarrow> v = 0 | Raise _ \<Rightarrow> True)"

text \<open>A program that writes no dictionary file and only card pictures of one faction.\<close>

definition captures_only :: "string \<Rightarrow> (world, 'a) prog \<Rightarrow> bool" where
  "captures_only faction m \<longleftrightarrow>
     (\<forall>w. disk (snd (m w)) = disk w \<and>
          (\<exists>units. shots (snd (m w)) = shots w @ map (card_path faction) units))"




text \<open>What the enumeration of one faction may change.\<close>

definition units_step :: "string \<Rightarrow> world \<Rightarrow> world \<Rightarrow> bool" where
  "units_step n w w' \<longleftrightarrow>
     disk w' = disk w \<and> shots w' = shots w \<and> factions_names w' = factions_names w \<and>
     (factions_dict w' = factions_dict w \<or>
      (\<exists>html names. get_names_from_html html = Ret names \<and>
         factions_dict w' = AList.update n names (factions_dict w)))"

text \<open>Programs that change nothing but the clock.\<close>

definition idle :: "(world, 'a) prog \<Rightarrow> bool" where
  "idle m \<longleftrightarrow> (\<forall>w. \<exists>c. snd (m w) = w\<lparr>clock := c\<rparr>)"

definition stepping :: "string \<Rightarrow> (world, 'a) prog \<Rightarrow> bool" where
  "stepping n m \<longleftrightarrow> (\<forall>w. units_step n w (snd (m w)))"

text \<open>
  The external calls of \<^verbatim>\<open>fetch_card_from_unit\<close>, in order, and the exception of the
  first of a list of calls that raises, the calls being made from moment \<open>t\<close> on.
\<close>

fun first_failure :: "env \<Rightarrow> nat \<Rightarrow> call list \<Rightarrow> exn option" where
  "first_failure E t [] = None"
| "first_failure E t (c # cs) =
     (case raises E t c of Some e \<Rightarrow> Some e | None \<Rightarrow> first_failure E (Suc t) cs)"

definition card_steps :: "string \<Rightarrow> string \<Rightarrow> call list" where
  "card_steps faction unit =
     [Get (card_url faction unit),
      ExecuteScript remove_button_script,
      Makedirs (output_dir @ faction),
      WaitPresence card_xpath,
      Screenshot (card_path faction unit)]"

section \<open>Sample surroundings\<close>

text \<open>
  Surroundings in which the \<open>t\<close>-th external call raises \<open>e\<close> and every other call
  succeeds, pages have no links, the add-on file is present, and dictionaries are loaded
  from the file \<^verbatim>\<open>index\<close> of the directory; and a world at the start of a run.
\<close>

definition fail_at :: "nat \<Rightarrow> exn \<Rightarrow> env" where
  "fail_at t e =
     \<lparr>raises = (\<lambda>t' c. if t' = t then Some e else None),
      located = (\<lambda>_ _. []),
      found = (\<lambda>_ _. []),
      path_exists = (\<lambda>_ _. True),
      load_dictionary_if_exists = (\<lambda>files dir. files (dir @ ''index''))\<rparr>"

definition start :: "(string \<rightharpoonup> index) \<Rightarrow> world" where
  "start files =
     \<lparr>clock = 0, disk = files, shots = [], printed = [], check_for_cookies = True,
      factions_names = [], factions_dict = []\<rparr>"



section \<open>Properties of the link names\<close>

lemma str_split_nonempty: "str_split sep s \<noteq> []"
  by (induction s) (auto split: list.splits)

lemma last_str_split_free: "sep \<notin> set (last (str_split sep s))"
  by (induction s) (auto simp: str_split_nonempty split: list.splits)

lemma str_split_whole: "sep \<notin> set s \<Longrightarrow> str_split sep s = [s]"
  by (induction s) (auto split: list.splits)

lemma str_split_many: "sep \<in> set s \<Longrightarrow> tl (str_split sep s) \<noteq> []"
  by (induction s) (auto simp: str_split_nonempty split: list.splits)

lemma last_str_split_suffix:
  "sep \<in> set s \<Longrightarrow> \<exists>pre. s = pre @ sep # last (str_split sep s)"
proof (induction s)
  case Nil
  then show ?case by simp
next
  case (Cons c cs)
  show ?case
  proof (cases "sep \<in> set cs")
    case True
    with Cons.IH obtain pre where p: "cs = pre @ sep # last (str_split sep cs)" by blast
    have "last (str_split sep (c # cs)) = last (str_split sep cs)"
      using str_split_many [OF True]
      by (cases "str_split sep cs") (auto split: list.splits)
    with p have "c # cs = (c # pre) @ sep # last (str_split sep (c # cs))" by simp
    then show ?thesis by blast
  next
    case False
    with Cons.prems have c: "c = sep" by simp
    from False have "str_split sep cs = [cs]" by (rule str_split_whole)
    with c have "c # cs = [] @ sep # last (str_split sep (c # cs))" by simp
    then show ?thesis by blast
  qed
qed

lemma last_str_split:
  "sep \<notin> set (last (str_split sep s)) \<and>
   (s = last (str_split sep s) \<or> (\<exists>pre. s = pre @ sep # last (str_split sep s)))"
proof (cases "sep \<in> set s")
  case True
  then show ?thesis using last_str_split_free last_str_split_suffix by blast
next
  case False
  then show ?thesis using last_str_split_free by (simp add: str_split_whole)
qed

lemma drop_to_suffix:
  "h = pre @ c # n \<Longrightarrow> length n < length h \<and> drop (length h - Suc (length n)) h = c # n"
  by simp

lemma names_of_hrefs_sound:
  "names_of_hrefs html = Ret names \<Longrightarrow> name \<in> set names \<Longrightarrow>
   \<exists>href. Some href \<in> set html \<and> name = last (str_split CHR ''/'' href)"
proof (induction html arbitrary: names rule: names_of_hrefs.induct)
  case 1
  then show ?case by simp
next
  case (2 hrefs)
  then show ?case by simp
next
  case (3 href hrefs)
  then show ?case by (fastforce split: result.splits)
qed

text \<open>
  C8. Whenever \<^verbatim>\<open>get_names_from_html\<close> returns, every name of the returned list is the
  part after the last \<^verbatim>\<open>/\<close> of the href of one of the links of the element, and no
  returned name is \<^verbatim>\<open>datasheets.html\<close>.
\<close>

theorem get_names_from_html_names:
  assumes "get_names_from_html html = Ret names"
  shows "\<forall>name \<in> set names.
           (\<exists>href. Some href \<in> set html \<and> after_last_slash href name) \<and>
           name \<noteq> ''datasheets.html''"
proof
  fix name
  assume n: "name \<in> set names"
  from assms obtain raw where raw: "names_of_hrefs html = Ret raw"
    and names: "names = filter (\<lambda>name. name \<noteq> ''datasheets.html'') raw"
    by (auto simp: get_names_from_html_def split: result.splits)
  from n names have "name \<in> set raw" and ne: "name \<noteq> ''datasheets.html''" by auto
  with raw obtain href where h: "Some href \<in> set html"
    and l: "name = last (str_split CHR ''/'' href)"
    using names_of_hrefs_sound by blast
  have free: "CHR ''/'' \<notin> set name"
    unfolding l by (rule last_str_split_free)
  have "href = name \<or>
      (length name < length href \<and>
       drop (length href - Suc (length name)) href = CHR ''/'' # name)"
  proof (cases "CHR ''/'' \<in> set href")
    case True
    then obtain pre where "href = pre @ CHR ''/'' # name"
      unfolding l using last_str_split_suffix by blast
    then show ?thesis using drop_to_suffix [of href pre "CHR ''/''" name] by simp
  next
    case False
    then show ?thesis unfolding l by (simp add: str_split_whole)
  qed
  with free have "after_last_slash href name"
    unfolding after_last_slash_def by simp
  with h ne show "(\<exists>href. Some href \<in> set html \<and> after_last_slash href name) \<and>
           name \<noteq> ''datasheets.html''" by blast
qed

theorem get_names_from_html_names_witness:
  "get_names_from_html
     [Some ''https://wahapedia.ru/wh40k10ed/factions/orks/Boyz'',
      Some ''https://wahapedia.ru/wh40k10ed/factions/orks/datasheets.html'']
   = Ret [''Boyz''] \<and>
   (\<exists>href. Some href \<in> set [Some ''https://wahapedia.ru/wh40k10ed/factions/orks/Boyz'',
          Some ''https://wahapedia.ru/wh40k10ed/factions/orks/datasheets.html'']
        \<and> after_last_slash href ''Boyz'') \<and>
   ''Boyz'' \<noteq> ''datasheets.html''"
proof -
  have e: "get_names_from_html
     [Some ''https://wahapedia.ru/wh40k10ed/factions/orks/Boyz'',
      Some ''https://wahapedia.ru/wh40k10ed/factions/orks/datasheets.html'']
   = Ret [''Boyz'']"
    by (simp add: get_names_from_html_def)
  from get_names_from_html_names [OF e] have
    "(\<exists>href. Some href \<in> set [Some ''https://wahapedia.ru/wh40k10ed/factions/orks/Boyz'',
          Some ''https://wahapedia.ru/wh40k10ed/factions/orks/datasheets.html'']
        \<and> after_last_slash href ''Boyz'') \<and>
     ''Boyz'' \<noteq> ''datasheets.html''"
    by simp
  with e show ?thesis by blast
qed

section \<open>Sequencing\<close>

text \<open>The equations that evaluate a run on given surroundings.\<close>

lemmas run_simps = andthen_def andalso_def ret_def extern_def except_Exception_def except_both_def
  loading_def on_world_def with_local_def lookup_def remove_unit_def screenshot_def
  wait_until_def find_elements_def os_path_exists_def print_def save_dict_to_json_def
  load_dictionary_def of_result_def

lemma andthen_cases:
  assumes "andthen m k s = (r, t)"
  obtains (ok) v s' where "m s = (Ret v, s')" "k v s' = (r, t)"
        | (fail) e where "m s = (Raise e, t)" "r = Raise e"
  using assms by (auto simp: andthen_def split: prod.splits result.splits)

lemma andalso_cases:
  assumes "andalso m k s = (r, t)"
  obtains (ok) v s' where "m s = (Ret v, s')" "k s' = (r, t)"
        | (fail) e where "m s = (Raise e, t)" "r = Raise e"
  using assms unfolding andalso_def by (rule andthen_cases)

lemma andalso_Ret: "m s = (Ret v, s') \<Longrightarrow> andalso m k s = k s'"
  by (simp add: andalso_def andthen_def)

lemma andalso_Raise: "m s = (Raise e, s') \<Longrightarrow> andalso m k s = (Raise e, s')"
  by (simp add: andalso_def andthen_def)

lemma andthen_Ret: "m s = (Ret v, s') \<Longrightarrow> andthen m k s = k v s'"
  by (simp add: andthen_def)

lemma andthen_Raise: "m s = (Raise e, s') \<Longrightarrow> andthen m k s = (Raise e, s')"
  by (simp add: andthen_def)

lemma extern_cases:
  assumes "extern E c w = (r, w')"
  shows "w' = w\<lparr>clock := Suc (clock w)\<rparr> \<and>
         (case raises E (clock w) c of Some e \<Rightarrow> r = Raise e | None \<Rightarrow> r = Ret ())"
  using assms by (auto simp: extern_def split: option.splits)

lemma fetch_card_from_unit_effect:
  assumes "fetch_card_from_unit E faction unit w = (r, w')"
  shows "disk w' = disk w \<and> printed w' = printed w \<and> clock w < clock w' \<and>
         shots w' = (case r of Ret _ \<Rightarrow> shots w @ [card_path faction unit] | Raise _ \<Rightarrow> shots w)"
  using assms unfolding fetch_card_from_unit_def screenshot_def wait_until_def
  by (auto elim!: andalso_cases andthen_cases dest!: extern_cases simp: ret_def split: option.splits)

lemma on_world_cases:
  assumes "on_world m (d, w) = (r, (d', w'))"
  shows "m w = (r, w') \<and> d' = d"
  using assms by (auto simp: on_world_def split: prod.splits)

lemma remove_unit_head:
  "map_of d faction = Some (unit # queue) \<Longrightarrow>
   remove_unit faction unit (d, w) = (Ret (), (AList.update faction queue d, w))"
  by (simp add: remove_unit_def andthen_def lookup_def)

lemma units_loop_run:
  assumes "map_of d faction = Some queue"
    and "units_loop E faction queue (d, w) = (r, (d', w'))"
  shows "\<exists>n\<le>length queue.
           d' = AList.update faction (drop n queue) d \<and>
           shots w' = shots w @ map (card_path faction) (take n queue) \<and>
           disk w' = disk w \<and> printed w' = printed w \<and> clock w \<le> clock w' \<and>
           (\<forall>i<n. \<exists>w0 w1. fetch_card_from_unit E faction (queue ! i) w0 = (Ret (), w1) \<and>
                     clock w \<le> clock w0 \<and> clock w1 \<le> clock w') \<and>
           (case r of
              Ret _ \<Rightarrow> n = length queue
            | Raise e \<Rightarrow> n < length queue \<and>
                (\<exists>w0. fetch_card_from_unit E faction (queue ! n) w0 = (Raise e, w') \<and>
                      clock w \<le> clock w0))"
  using assms
proof (induction queue arbitrary: d w)
  case Nil
  then show ?case by (auto simp: ret_def AList.update_triv)
next
  case (Cons unit queue)
  obtain r1 w1 where c0: "fetch_card_from_unit E faction unit w = (r1, w1)"
    by (cases "fetch_card_from_unit E faction unit w")
  show ?case
  proof (cases r1)
    case (Ret u)
    with c0 have c: "fetch_card_from_unit E faction unit w = (Ret (), w1)" by simp
    then have "on_world (fetch_card_from_unit E faction unit) (d, w) = (Ret (), (d, w1))"
      by (simp add: on_world_def)
    with Cons.prems have run: "units_loop E faction queue (AList.update faction queue d, w1) = (r, (d', w'))"
      by (simp add: andalso_Ret remove_unit_head)
    have m: "map_of (AList.update faction queue d) faction = Some queue"
      by (simp add: AList.update_conv')
    from Cons.IH [OF m run] obtain n where n: "n \<le> length queue"
      "d' = AList.update faction (drop n queue) (AList.update faction queue d)"
      "shots w' = shots w1 @ map (card_path faction) (take n queue)"
      "disk w' = disk w1" "printed w' = printed w1" "clock w1 \<le> clock w'"
      "\<forall>i<n. \<exists>w0 w2. fetch_card_from_unit E faction (queue ! i) w0 = (Ret (), w2) \<and>
                     clock w1 \<le> clock w0 \<and> clock w2 \<le> clock w'"
      "case r of
              Ret _ \<Rightarrow> n = length queue
            | Raise e \<Rightarrow> n < length queue \<and>
                (\<exists>w0. fetch_card_from_unit E faction (queue ! n) w0 = (Raise e, w') \<and>
                      clock w1 \<le> clock w0)"
      by blast
    from fetch_card_from_unit_effect [OF c]
    have e: "disk w1 = disk w" "printed w1 = printed w" "clock w < clock w1"
      "shots w1 = shots w @ [card_path faction unit]" by auto
    have all: "\<forall>i<Suc n. \<exists>w0 w2.
        fetch_card_from_unit E faction ((unit # queue) ! i) w0 = (Ret (), w2) \<and>
        clock w \<le> clock w0 \<and> clock w2 \<le> clock w'"
    proof (intro allI impI)
      fix i assume i: "i < Suc n"
      show "\<exists>w0 w2. fetch_card_from_unit E faction ((unit # queue) ! i) w0 = (Ret (), w2) \<and>
        clock w \<le> clock w0 \<and> clock w2 \<le> clock w'"
      proof (cases i)
        case 0
        with c n(6) show ?thesis by auto
      next
        case (Suc j)
        with i n(7) obtain w0 w2 where
          "fetch_card_from_unit E faction (queue ! j) w0 = (Ret (), w2)"
          "clock w1 \<le> clock w0" "clock w2 \<le> clock w'" by auto
        with e(3) Suc show ?thesis
          by (intro exI [of _ w0] exI [of _ w2]) simp
      qed
    qed
    have last: "case r of
              Ret _ \<Rightarrow> Suc n = length (unit # queue)
            | Raise e \<Rightarrow> Suc n < length (unit # queue) \<and>
                (\<exists>w0. fetch_card_from_unit E faction ((unit # queue) ! Suc n) w0 = (Raise e, w') \<and>
                      clock w \<le> clock w0)"
      using n(8) e(3) by (cases r) (auto intro: less_imp_le le_trans)
    show ?thesis
      apply (rule exI [of _ "Suc n"])
      using n(1-6) e all last by simp
  next
    case (Raise e)
    with c0 have c: "fetch_card_from_unit E faction unit w = (Raise e, w1)" by simp
    then have "on_world (fetch_card_from_unit E faction unit) (d, w) = (Raise e, (d, w1))"
      by (simp add: on_world_def)
    with Cons.prems have r: "r = Raise e" "d' = d" "w' = w1"
      by (simp_all add: andalso_Raise)
    from fetch_card_from_unit_effect [OF c] Cons.prems(1) c r show ?thesis
      by (intro exI [of _ 0]) (auto simp: AList.update_triv)
  qed
qed

lemma fetch_all_cards_from_faction_logic_missing:
  assumes "map_of d faction = None"
  shows "fetch_all_cards_from_faction_logic E faction (d, w) = (Ret 1, (d, w))"
  using assms
  by (simp add: fetch_all_cards_from_faction_logic_def loading_def except_Exception_def
      andthen_def lookup_def ret_def)

lemma fetch_all_cards_from_faction_logic_run:
  assumes "map_of d faction = Some queue"
    and "fetch_all_cards_from_faction_logic E faction (d, w) = (r, (d', w'))"
  shows "\<exists>n\<le>length queue.
           d' = AList.update faction (drop n queue) d \<and>
           shots w' = shots w @ map (card_path faction) (take n queue) \<and>
           disk w' = disk w \<and> printed w' = printed w \<and> clock w \<le> clock w' \<and>
           (\<forall>i<n. \<exists>w0 w1. fetch_card_from_unit E faction (queue ! i) w0 = (Ret (), w1) \<and>
                     clock w \<le> clock w0 \<and> clock w1 \<le> clock w') \<and>
           (if n = length queue then r = Ret 0
            else \<exists>w0 e. fetch_card_from_unit E faction (queue ! n) w0 = (Raise e, w') \<and>
                   clock w \<le> clock w0 \<and>
                   r = (case e of Exception _ \<Rightarrow> Ret 1 | KeyboardInterrupt \<Rightarrow> Raise e))"
proof -
  obtain r0 d0 w0 where loop: "units_loop E faction queue (d, w) = (r0, (d0, w0))"
    by (metis surj_pair)
  have l: "lookup faction (d, w) = (Ret queue, (d, w))"
    using assms(1) by (simp add: lookup_def)
  define m where "m = andthen (lookup faction) (\<lambda>units_queue.
        andalso (units_loop E faction units_queue) (ret (0::int)))"
  have logic: "fetch_all_cards_from_faction_logic E faction = except_Exception m (\<lambda>_. ret 1)"
    by (simp add: fetch_all_cards_from_faction_logic_def loading_def m_def)
  have body: "m (d, w) =
      (case r0 of Ret _ \<Rightarrow> (Ret 0, (d0, w0)) | Raise e \<Rightarrow> (Raise e, (d0, w0)))"
    unfolding m_def using loop l by (cases r0) (simp_all add: andthen_def andalso_def ret_def)
  note run = assms(2) [unfolded logic]
  from units_loop_run [OF assms(1) loop] obtain n where n: "n \<le> length queue"
      "d0 = AList.update faction (drop n queue) d"
      "shots w0 = shots w @ map (card_path faction) (take n queue)"
      "disk w0 = disk w" "printed w0 = printed w" "clock w \<le> clock w0"
      "\<forall>i<n. \<exists>wa wb. fetch_card_from_unit E faction (queue ! i) wa = (Ret (), wb) \<and>
                     clock w \<le> clock wa \<and> clock wb \<le> clock w0"
      "case r0 of
              Ret _ \<Rightarrow> n = length queue
            | Raise e \<Rightarrow> n < length queue \<and>
                (\<exists>wa. fetch_card_from_unit E faction (queue ! n) wa = (Raise e, w0) \<and>
                      clock w \<le> clock wa)"
    by blast
  show ?thesis
  proof (cases r0)
    case (Ret u)
    with body run have "r = Ret 0" "d' = d0" "w' = w0"
      by (simp_all add: except_Exception_def)
    with n Ret show ?thesis by (intro exI [of _ n]) simp
  next
    case (Raise e)
    with body run have
      "r = (case e of Exception _ \<Rightarrow> Ret 1 | KeyboardInterrupt \<Rightarrow> Raise e)" "d' = d0" "w' = w0"
      by (cases e; simp add: except_Exception_def ret_def)+
    with n Raise show ?thesis by (intro exI [of _ n]) auto
  qed
qed

text \<open>
  C1. In a run of \<^verbatim>\<open>fetch_all_cards_from_faction_logic\<close> on a faction whose sequence is
  \<open>queue\<close>, the units removed from the sequence of the faction are the first \<open>n\<close> of it, and
  for each of them \<^verbatim>\<open>fetch_card_from_unit\<close> returned without raising during the run; when
  units remain, the first remaining one is the unit whose capture raised and ended the run:
  it has not been removed.
\<close>

theorem removed_only_after_capture:
  assumes "map_of d faction = Some queue"
    and "fetch_all_cards_from_faction_logic E faction (d, w) = (r, (d', w'))"
  shows "\<exists>n\<le>length queue.
           map_of d' faction = Some (drop n queue) \<and>
           (\<forall>i<n. \<exists>w0 w1. fetch_card_from_unit E faction (queue ! i) w0 = (Ret (), w1) \<and>
                     clock w \<le> clock w0 \<and> clock w1 \<le> clock w') \<and>
           (n < length queue \<longrightarrow>
              (\<exists>w0 e. fetch_card_from_unit E faction (queue ! n) w0 = (Raise e, w') \<and>
                      clock w \<le> clock w0)) \<and>
           (r = Ret 0 \<longleftrightarrow> n = length queue)"
proof -
  from fetch_all_cards_from_faction_logic_run [OF assms] obtain n where n: "n \<le> length queue"
      "d' = AList.update faction (drop n queue) d"
      "\<forall>i<n. \<exists>w0 w1. fetch_card_from_unit E faction (queue ! i) w0 = (Ret (), w1) \<and>
                     clock w \<le> clock w0 \<and> clock w1 \<le> clock w'"
      "if n = length queue then r = Ret 0
            else \<exists>w0 e. fetch_card_from_unit E faction (queue ! n) w0 = (Raise e, w') \<and>
                   clock w \<le> clock w0 \<and>
                   r = (case e of Exception _ \<Rightarrow> Ret 1 | KeyboardInterrupt \<Rightarrow> Raise e)"
    by blast
  have 1: "map_of d' faction = Some (drop n queue)"
    using n(2) by (simp add: AList.update_conv')
  have 2: "n < length queue \<longrightarrow>
              (\<exists>w0 e. fetch_card_from_unit E faction (queue ! n) w0 = (Raise e, w') \<and>
                      clock w \<le> clock w0)"
    using n(4) by (auto split: if_splits)
  have 3: "r = Ret 0 \<longleftrightarrow> n = length queue"
  proof (cases "n = length queue")
    case True
    with n(4) show ?thesis by simp
  next
    case False
    with n(4) obtain e where
      "r = (case e of Exception _ \<Rightarrow> Ret 1 | KeyboardInterrupt \<Rightarrow> Raise e)" by auto
    then have "r \<noteq> Ret 0" by (cases e) simp_all
    with False show ?thesis by simp
  qed
  from n(1) 1 n(3) 2 3 show ?thesis by blast
qed

theorem removed_only_after_capture_witness:
  "fetch_all_cards_from_faction_logic (fail_at 7 (Exception ''down'')) ''orks''
     ([(''orks'', [''Boyz'', ''Gretchin''])], start Map.empty) =
   (Ret 1, ([(''orks'', [''Gretchin''])],
     \<lparr>clock = 8, disk = Map.empty, shots = [''./out/factions/orks/Boyz.png''], printed = [],
      check_for_cookies = True, factions_names = [], factions_dict = []\<rparr>)) \<and>
   (\<exists>n\<le>length [''Boyz'', ''Gretchin''].
      map_of [(''orks'', [''Gretchin''])] ''orks'' = Some (drop n [''Boyz'', ''Gretchin'']) \<and>
      (n < length [''Boyz'', ''Gretchin''] \<longrightarrow>
         (\<exists>w0 e. fst (fetch_card_from_unit (fail_at 7 (Exception ''down'')) ''orks''
                    ([''Boyz'', ''Gretchin''] ! n) w0) = Raise e)))"
proof -
  have q: "map_of [(''orks'', [''Boyz'', ''Gretchin''])] ''orks'' = Some [''Boyz'', ''Gretchin'']"
    by simp
  have run: "fetch_all_cards_from_faction_logic (fail_at 7 (Exception ''down'')) ''orks''
     ([(''orks'', [''Boyz'', ''Gretchin''])], start Map.empty) =
   (Ret 1, ([(''orks'', [''Gretchin''])],
     \<lparr>clock = 8, disk = Map.empty, shots = [''./out/factions/orks/Boyz.png''], printed = [],
      check_for_cookies = True, factions_names = [], factions_dict = []\<rparr>))"
    by (simp add: fetch_all_cards_from_faction_logic_def fetch_card_from_unit_def run_simps
        fail_at_def start_def card_path_def output_dir_def)
  from removed_only_after_capture [OF q run] obtain n where
    "n \<le> length [''Boyz'', ''Gretchin'']"
    "map_of [(''orks'', [''Gretchin''])] ''orks'' = Some (drop n [''Boyz'', ''Gretchin''])"
    "n < length [''Boyz'', ''Gretchin''] \<longrightarrow>
       (\<exists>w0 e. fetch_card_from_unit (fail_at 7 (Exception ''down'')) ''orks''
                  ([''Boyz'', ''Gretchin''] ! n) w0 =
                (Raise e, \<lparr>clock = 8, disk = Map.empty,
                   shots = [''./out/factions/orks/Boyz.png''], printed = [],
                   check_for_cookies = True, factions_names = [], factions_dict = []\<rparr>))"
    by blast
  then have "\<exists>n\<le>length [''Boyz'', ''Gretchin''].
      map_of [(''orks'', [''Gretchin''])] ''orks'' = Some (drop n [''Boyz'', ''Gretchin'']) \<and>
      (n < length [''Boyz'', ''Gretchin''] \<longrightarrow>
         (\<exists>w0 e. fst (fetch_card_from_unit (fail_at 7 (Exception ''down'')) ''orks''
                    ([''Boyz'', ''Gretchin''] ! n) w0) = Raise e))"
    by (metis fst_conv)
  with run show ?thesis by blast
qed

text \<open>
  C7. The units of a faction are captured in the order of the sequence of the faction: the
  card pictures written by a run of \<^verbatim>\<open>fetch_all_cards_from_faction_logic\<close> are those of
  the first \<open>n\<close> units of the sequence, in that order, and what remains is the rest of the
  sequence, so that the unit taken next is always the first remaining one.
\<close>

theorem captured_in_index_order:
  assumes "map_of d faction = Some queue"
    and "fetch_all_cards_from_faction_logic E faction (d, w) = (r, (d', w'))"
  shows "\<exists>n\<le>length queue.
           shots w' = shots w @ map (card_path faction) (take n queue) \<and>
           map_of d' faction = Some (drop n queue)"
  using fetch_all_cards_from_faction_logic_run [OF assms]
  by (auto simp: AList.update_conv')

theorem captured_in_index_order_witness:
  "fetch_all_cards_from_faction_logic (fail_at 12 KeyboardInterrupt) ''orks''
     ([(''orks'', [''Boyz'', ''Gretchin'', ''Warboss''])], start Map.empty) =
   (Raise KeyboardInterrupt, ([(''orks'', [''Warboss''])],
     \<lparr>clock = 13, disk = Map.empty,
      shots = [''./out/factions/orks/Boyz.png'', ''./out/factions/orks/Gretchin.png''],
      printed = [], check_for_cookies = True, factions_names = [], factions_dict = []\<rparr>)) \<and>
   (\<exists>n\<le>length [''Boyz'', ''Gretchin'', ''Warboss''].
      [''./out/factions/orks/Boyz.png'', ''./out/factions/orks/Gretchin.png''] =
        shots (start Map.empty) @
        map (card_path ''orks'') (take n [''Boyz'', ''Gretchin'', ''Warboss'']) \<and>
      map_of [(''orks'', [''Warboss''])] ''orks'' =
        Some (drop n [''Boyz'', ''Gretchin'', ''Warboss'']))"
proof -
  have q: "map_of [(''orks'', [''Boyz'', ''Gretchin'', ''Warboss''])] ''orks'' =
      Some [''Boyz'', ''Gretchin'', ''Warboss'']"
    by simp
  have run: "fetch_all_cards_from_faction_logic (fail_at 12 KeyboardInterrupt) ''orks''
     ([(''orks'', [''Boyz'', ''Gretchin'', ''Warboss''])], start Map.empty) =
   (Raise KeyboardInterrupt, ([(''orks'', [''Warboss''])],
     \<lparr>clock = 13, disk = Map.empty,
      shots = [''./out/factions/orks/Boyz.png'', ''./out/factions/orks/Gretchin.png''],
      printed = [], check_for_cookies = True, factions_names = [], factions_dict = []\<rparr>))"
    by (simp add: fetch_all_cards_from_faction_logic_def fetch_card_from_unit_def run_simps
        fail_at_def start_def card_path_def output_dir_def)
  from captured_in_index_order [OF q run] run show ?thesis by simp
qed

section \<open>Programs that write nothing\<close>

lemma silentD:
  "silent m \<Longrightarrow> m w = (r, w') \<Longrightarrow> disk w' = disk w \<and> shots w' = shots w \<and> clock w \<le> clock w'"
  unfolding silent_def by (metis snd_conv)

lemma silent_ret: "silent (ret v)"
  by (simp add: silent_def ret_def)

lemma silent_andthen: "silent m \<Longrightarrow> (\<And>v. silent (k v)) \<Longrightarrow> silent (andthen m k)"
  unfolding silent_def andthen_def
  by (auto split: prod.splits result.splits) (metis snd_conv le_trans)+

lemma silent_andalso: "silent m \<Longrightarrow> silent k \<Longrightarrow> silent (andalso m k)"
  unfolding andalso_def by (rule silent_andthen)

lemma silent_except_Exception:
  "silent m \<Longrightarrow> (\<And>msg. silent (h msg)) \<Longrightarrow> silent (except_Exception m h)"
  unfolding silent_def except_Exception_def
  by (auto split: prod.splits result.splits exn.splits) (metis snd_conv le_trans)+

lemma silent_extern: "silent (extern E c)"
  by (simp add: silent_def extern_def split: option.splits)

lemma silent_print: "silent (print line)"
  by (simp add: silent_def print_def)

lemma silent_wait_until: "silent (wait_until E c xpath)"
  by (simp add: silent_def wait_until_def andthen_def extern_def ret_def split: option.splits)

lemma silent_os_path_exists: "silent (os_path_exists E path)"
  by (simp add: silent_def os_path_exists_def andthen_def extern_def ret_def split: option.splits)

lemma silent_ensure_dirs_exist: "silent (ensure_dirs_exist E)"
  unfolding ensure_dirs_exist_def ensure_dirs_exist_try_def loading_def
  by (intro silent_except_Exception silent_andalso silent_extern silent_ret)

lemma silent_install_ublock: "silent (install_ublock E)"
  unfolding install_ublock_def install_ublock_try_def loading_def
  by (intro silent_except_Exception silent_andthen silent_os_path_exists silent_ret)
     (auto intro!: silent_andalso silent_extern silent_ret)

lemma silent_close_session: "silent (close_session E)"
  unfolding close_session_def close_session_try_def loading_def
  by (intro silent_except_Exception silent_andalso silent_extern silent_ret)

lemma silent_click_button: "silent (click_button E xpath)"
  unfolding click_button_def
  by (intro silent_except_Exception silent_andthen silent_andalso silent_wait_until
      silent_extern silent_ret)

lemma silent_forget_cookies: "silent (\<lambda>w. (Ret (0::int), w\<lparr>check_for_cookies := False\<rparr>))"
  by (simp add: silent_def)

lemma silent_remove_cookies: "silent (remove_cookies E)"
proof -
  let ?rest = "andalso (extern E (Get home_url))
         (andthen (click_button E (by_id ''ez-manage-settings'')) (\<lambda>left.
            case left of
              Some code \<Rightarrow> ret code
            | None \<Rightarrow>
                andthen (click_button E (by_id ''ez-save-settings'')) (\<lambda>left.
                  case left of
                    Some code \<Rightarrow> ret code
                  | None \<Rightarrow> (\<lambda>w. (Ret (0::int), w\<lparr>check_for_cookies := False\<rparr>)))))"
  have "silent ?rest"
    by (intro silent_andalso silent_andthen silent_extern silent_click_button)
       (auto intro!: silent_andthen silent_click_button silent_ret silent_forget_cookies
          split: option.splits)
  then show ?thesis
    unfolding remove_cookies_def loading_def silent_def by (simp add: ret_def)
qed

lemma silent_init_session: "silent (init_session E)"
  unfolding init_session_def
  by (intro silent_andalso silent_extern silent_ensure_dirs_exist silent_install_ublock
      silent_remove_cookies silent_ret)

lemma load_dictionary_cases:
  assumes "load_dictionary E dir w = (r, w')"
  shows "w' = w\<lparr>clock := Suc (clock w)\<rparr> \<and>
         (case raises E (clock w) (LoadDictionary dir) of
            Some e \<Rightarrow> r = Raise e
          | None \<Rightarrow> r = Ret (load_dictionary_if_exists E (disk w) dir))"
  using assms
  by (auto simp: load_dictionary_def andthen_def extern_def split: option.splits)

lemma silent_load_dictionary: "silent (load_dictionary E dir)"
  unfolding silent_def load_dictionary_def andthen_def extern_def
  by (auto split: option.splits)

section \<open>The loop over the factions\<close>

lemma units_of_append: "units_of f (a @ b) = units_of f a @ units_of f b"
  by (simp add: units_of_def)

lemma units_of_same: "units_of f (map (Pair f) us) = us"
  by (induction us) (simp_all add: units_of_def)

lemma units_of_other: "g \<noteq> f \<Longrightarrow> units_of g (map (Pair f) us) = []"
  by (induction us) (simp_all add: units_of_def)

lemma card_paths_append: "card_paths (a @ b) = card_paths a @ card_paths b"
  by (simp add: card_paths_def)

lemma card_paths_same: "card_paths (map (Pair f) us) = map (card_path f) us"
  by (simp add: card_paths_def comp_def)

lemma accounts_refl: "accounts d [] d"
  by (auto simp: accounts_def units_of_def split: option.splits)

lemma accounts_step:
  assumes q: "map_of d f = Some queue" and n: "n \<le> length queue"
    and rest: "accounts (AList.update f (drop n queue) d) caps d'"
  shows "accounts d (map (Pair f) (take n queue) @ caps) d'"
  unfolding accounts_def
proof (intro conjI ballI allI)
  fix p assume "p \<in> set (map (Pair f) (take n queue) @ caps)"
  then consider "fst p = f" | "p \<in> set caps" by auto
  then show "map_of d (fst p) \<noteq> None"
  proof cases
    case 1
    with q show ?thesis by simp
  next
    case 2
    with rest have "map_of (AList.update f (drop n queue) d) (fst p) \<noteq> None"
      by (simp add: accounts_def)
    with q show ?thesis by (auto simp: AList.update_conv' split: if_splits)
  qed
next
  fix g
  from rest have r: "case map_of (AList.update f (drop n queue) d) g of
            None \<Rightarrow> map_of d' g = None
          | Some queue \<Rightarrow> \<exists>rest. map_of d' g = Some rest \<and> queue = units_of g caps @ rest"
    by (simp add: accounts_def)
  show "case map_of d g of
            None \<Rightarrow> map_of d' g = None
          | Some q \<Rightarrow> \<exists>rest. map_of d' g = Some rest \<and>
              q = units_of g (map (Pair f) (take n queue) @ caps) @ rest"
  proof (cases "g = f")
    case True
    with r obtain rest where "map_of d' f = Some rest" "drop n queue = units_of f caps @ rest"
      by (auto simp: AList.update_conv')
    moreover have "queue = take n queue @ drop n queue" by simp
    ultimately have "queue = units_of f (map (Pair f) (take n queue) @ caps) @ rest"
      by (simp add: units_of_append units_of_same)
    with \<open>map_of d' f = Some rest\<close> q True show ?thesis by simp
  next
    case False
    with r show ?thesis
      by (auto simp: AList.update_conv' units_of_append units_of_other split: option.splits)
  qed
qed

lemma factions_loop_run:
  assumes "factions_loop E fs (d, w) = (r, (d', w'))"
  shows "(r = Ret () \<or> r = Raise KeyboardInterrupt) \<and>
         disk w' = disk w \<and> printed w' = printed w \<and> clock w \<le> clock w' \<and>
         (\<exists>caps. shots w' = shots w @ card_paths caps \<and> accounts d caps d')"
  using assms
proof (induction fs arbitrary: d w)
  case Nil
  then have "r = Ret ()" "d' = d" "w' = w" by (simp_all add: ret_def)
  then show ?case using accounts_refl [of d] by (auto simp: card_paths_def intro!: exI [of _ "[]"])
next
  case (Cons f fs)
  obtain r1 d1 w1 where step: "fetch_all_cards_from_faction_logic E f (d, w) = (r1, (d1, w1))"
    by (metis surj_pair)
  show ?case
  proof (cases "map_of d f")
    case None
    from fetch_all_cards_from_faction_logic_missing [OF None, of E w] Cons.prems
    have "factions_loop E fs (d, w) = (r, (d', w'))"
      by (simp add: andalso_Ret)
    then show ?thesis by (rule Cons.IH)
  next
    case (Some queue)
    from fetch_all_cards_from_faction_logic_run [OF Some step] obtain n where n: "n \<le> length queue"
      "d1 = AList.update f (drop n queue) d"
      "shots w1 = shots w @ map (card_path f) (take n queue)"
      "disk w1 = disk w" "printed w1 = printed w" "clock w \<le> clock w1"
      "if n = length queue then r1 = Ret 0
            else \<exists>w0 e. fetch_card_from_unit E f (queue ! n) w0 = (Raise e, w1) \<and>
                   clock w \<le> clock w0 \<and>
                   r1 = (case e of Exception _ \<Rightarrow> Ret 1 | KeyboardInterrupt \<Rightarrow> Raise e)"
      by blast
    have r1: "(\<exists>v. r1 = Ret v) \<or> r1 = Raise KeyboardInterrupt"
    proof (cases "n = length queue")
      case True
      with n(7) show ?thesis by simp
    next
      case False
      with n(7) obtain e where
        "r1 = (case e of Exception _ \<Rightarrow> Ret 1 | KeyboardInterrupt \<Rightarrow> Raise e)" by auto
      then show ?thesis by (cases e) simp_all
    qed
    then show ?thesis
    proof
      assume "\<exists>v. r1 = Ret v"
      then obtain v where "r1 = Ret v" ..
      with step Cons.prems have "factions_loop E fs (d1, w1) = (r, (d', w'))"
        by (simp add: andalso_Ret)
      from Cons.IH [OF this] obtain caps where c:
        "r = Ret () \<or> r = Raise KeyboardInterrupt"
        "disk w' = disk w1" "printed w' = printed w1" "clock w1 \<le> clock w'"
        "shots w' = shots w1 @ card_paths caps" "accounts d1 caps d'"
        by blast
      from c(6) have "accounts d (map (Pair f) (take n queue) @ caps) d'"
        unfolding n(2) by (rule accounts_step [OF Some n(1)])
      moreover have "shots w' = shots w @ card_paths (map (Pair f) (take n queue) @ caps)"
        using c(5) n(3) by (simp add: card_paths_append card_paths_same)
      ultimately show ?thesis using c(1-4) n(4-6) by auto
    next
      assume k: "r1 = Raise KeyboardInterrupt"
      with step Cons.prems have e: "r = Raise KeyboardInterrupt" "d' = d1" "w' = w1"
        by (simp_all add: andalso_Raise)
      have "accounts d1 [] d1" by (rule accounts_refl)
      then have "accounts d (map (Pair f) (take n queue) @ []) d1"
        unfolding n(2) by (rule accounts_step [OF Some n(1)])
      moreover have "shots w1 = shots w @ card_paths (map (Pair f) (take n queue) @ [])"
        using n(3) by (simp add: card_paths_same)
      ultimately show ?thesis using e n(4-6) by auto
    qed
  qed
qed

section \<open>The run of \<^verbatim>\<open>fetch_all_cards\<close>\<close>

lemma on_world_silent:
  assumes "silent m" and "on_world m (d, w) = (r, (d', w'))"
  shows "d' = d \<and> disk w' = disk w \<and> shots w' = shots w \<and> clock w \<le> clock w'"
proof -
  from assms(2) have "m w = (r, w')" "d' = d" using on_world_cases by blast+
  with silentD [OF assms(1)] show ?thesis by blast
qed

lemma fetch_all_cards_logic_run:
  assumes "fetch_all_cards_logic E (d, w) = (r, (d', w'))"
  shows "(r = Ret 0 \<or> r = Raise KeyboardInterrupt) \<and>
         disk w' = disk w \<and> printed w' = printed w \<and> clock w \<le> clock w' \<and>
         (\<exists>caps. shots w' = shots w @ card_paths caps \<and> accounts d caps d')"
proof -
  obtain r0 d0 w0 where loop: "factions_loop E (map fst d) (d, w) = (r0, (d0, w0))"
    by (metis surj_pair)
  from factions_loop_run [OF loop] have f:
    "r0 = Ret () \<or> r0 = Raise KeyboardInterrupt"
    "disk w0 = disk w \<and> printed w0 = printed w \<and> clock w \<le> clock w0 \<and>
         (\<exists>caps. shots w0 = shots w @ card_paths caps \<and> accounts d caps d0)"
    by blast+
  from f(1) loop assms have "(r = Ret 0 \<or> r = Raise KeyboardInterrupt) \<and> d' = d0 \<and> w' = w0"
    by (auto simp: fetch_all_cards_logic_def except_Exception_def andalso_def andthen_def ret_def)
  with f(2) show ?thesis by blast
qed

lemma fetch_all_cards_try_run:
  assumes "fetch_all_cards_try E (d, w) = (r, (d', w'))"
  shows "(r = Ret 0 \<or> r = Raise KeyboardInterrupt \<or>
           (\<exists>e w1. init_session E w = (Raise e, w1) \<and> r = Raise e)) \<and>
         disk w' = disk w \<and> clock w \<le> clock w' \<and>
         (\<exists>caps. shots w' = shots w @ card_paths caps \<and> accounts d caps d')"
proof -
  obtain ri wi where init: "init_session E w = (ri, wi)" by (metis surj_pair)
  from silentD [OF silent_init_session init]
  have i: "disk wi = disk w" "shots wi = shots w" "clock w \<le> clock wi" by blast+
  have oi: "on_world (init_session E) (d, w) = (ri, (d, wi))"
    using init by (simp add: on_world_def)
  show ?thesis
  proof (cases ri)
    case (Raise e)
    with oi assms have "r = Raise e" "d' = d" "w' = wi"
      by (simp_all add: fetch_all_cards_try_def andalso_Raise)
    with i init Raise accounts_refl [of d] show ?thesis
      by (auto simp: card_paths_def intro!: exI [of _ "[]"])
  next
    case (Ret u)
    obtain rl dl wl where logic: "fetch_all_cards_logic E (d, wi) = (rl, (dl, wl))"
      by (metis surj_pair)
    from fetch_all_cards_logic_run [OF logic] obtain caps where l:
      "rl = Ret 0 \<or> rl = Raise KeyboardInterrupt"
      "disk wl = disk wi" "clock wi \<le> clock wl"
      "shots wl = shots wi @ card_paths caps" "accounts d caps dl"
      by blast
    from l(1) show ?thesis
    proof
      assume k: "rl = Raise KeyboardInterrupt"
      with oi Ret logic assms have "r = Raise KeyboardInterrupt" "d' = dl" "w' = wl"
        by (simp_all add: fetch_all_cards_try_def andalso_Ret andalso_Raise)
      with l i show ?thesis by auto
    next
      assume z: "rl = Ret 0"
      obtain rc wc where close: "close_session E wl = (rc, wc)" by (metis surj_pair)
      from silentD [OF silent_close_session close]
      have c: "disk wc = disk wl" "shots wc = shots wl" "clock wl \<le> clock wc" by blast+
      have oc: "on_world (close_session E) (dl, wl) = (rc, (dl, wc))"
        using close by (simp add: on_world_def)
      have rc: "(\<exists>v. rc = Ret v) \<or> rc = Raise KeyboardInterrupt"
        using close
        by (auto simp: close_session_def close_session_try_def loading_def except_Exception_def
            andalso_def andthen_def ret_def extern_def split: option.splits exn.splits)
      then show ?thesis
      proof
        assume "\<exists>v. rc = Ret v"
        then obtain v where "rc = Ret v" ..
        with oi Ret logic z oc assms have "r = Ret 0" "d' = dl" "w' = wc"
          by (simp_all add: fetch_all_cards_try_def andalso_Ret ret_def)
        with l i c show ?thesis by auto
      next
        assume "rc = Raise KeyboardInterrupt"
        with oi Ret logic z oc assms have "r = Raise KeyboardInterrupt" "d' = dl" "w' = wc"
          by (simp_all add: fetch_all_cards_try_def andalso_Ret andalso_Raise)
        with l i c show ?thesis by auto
      qed
    qed
  qed
qed

lemma close_session_effect:
  assumes "close_session E w = (r, w')"
  shows "w' = w\<lparr>clock := Suc (clock w)\<rparr> \<and>
         r = (case raises E (clock w) Quit of
                None \<Rightarrow> Ret 0
              | Some (Exception _) \<Rightarrow> Ret 1
              | Some KeyboardInterrupt \<Rightarrow> Raise KeyboardInterrupt)"
  using assms
  by (auto simp: close_session_def close_session_try_def loading_def except_Exception_def
      andalso_def andthen_def ret_def extern_def split: option.splits exn.splits)

lemma close_then_save:
  assumes "andalso (on_world (close_session E)) (andalso (save_temp E) (ret (1::int))) (d, w) =
           (r, (d', w'))"
  shows "d' = d \<and> shots w' = shots w \<and> printed w' = printed w \<and>
         ((r = Ret 1 \<and> disk w' = (disk w)(temp_path \<mapsto> d)) \<or>
          ((\<exists>e. r = Raise e) \<and> disk w' = disk w))"
proof -
  obtain rc wc where close: "close_session E w = (rc, wc)" by (metis surj_pair)
  from close_session_effect [OF close]
  have c: "wc = w\<lparr>clock := Suc (clock w)\<rparr>" by simp
  have oc: "on_world (close_session E) (d, w) = (rc, (d, wc))"
    using close by (simp add: on_world_def)
  show ?thesis
  proof (cases rc)
    case (Raise e)
    with oc assms have "r = Raise e" "d' = d" "w' = wc" by (simp_all add: andalso_Raise)
    with c show ?thesis by simp
  next
    case (Ret v)
    with oc assms have s: "andalso (save_temp E) (ret (1::int)) (d, wc) = (r, (d', w'))"
      by (simp add: andalso_Ret)
    show ?thesis
    proof (cases "raises E (clock wc) (SaveJson temp_path)")
      case None
      then have "save_temp E (d, wc) =
          (Ret (), (d, wc\<lparr>clock := Suc (clock wc), disk := (disk wc)(temp_path \<mapsto> d)\<rparr>))"
        by (simp add: save_temp_def on_world_def save_dict_to_json_def andthen_def extern_def)
      with s have "r = Ret 1" "d' = d"
        "w' = wc\<lparr>clock := Suc (clock wc), disk := (disk wc)(temp_path \<mapsto> d)\<rparr>"
        by (auto simp: andalso_Ret ret_def)
      with c show ?thesis by simp
    next
      case (Some e)
      then have "save_temp E (d, wc) = (Raise e, (d, wc\<lparr>clock := Suc (clock wc)\<rparr>))"
        by (simp add: save_temp_def on_world_def save_dict_to_json_def andthen_def extern_def)
      with s have "r = Raise e" "d' = d" "w' = wc\<lparr>clock := Suc (clock wc)\<rparr>"
        by (auto simp: andalso_Raise)
      with c show ?thesis by simp
    qed
  qed
qed

text \<open>The handlers of \<^verbatim>\<open>fetch_all_cards\<close>.\<close>

lemma interrupt_handler:
  assumes "andalso (on_world (print line))
            (andalso (on_world (close_session E)) (andalso (save_temp E) (ret (1::int)))) (d, w) =
           (r, (d', w'))"
  shows "d' = d \<and> shots w' = shots w \<and>
         ((r = Ret 1 \<and> disk w' = (disk w)(temp_path \<mapsto> d)) \<or>
          ((\<exists>e. r = Raise e) \<and> disk w' = disk w))"
proof -
  have "on_world (print line) (d, w) = (Ret (), (d, w\<lparr>printed := printed w @ [line]\<rparr>))"
    by (simp add: on_world_def print_def)
  with assms have "andalso (on_world (close_session E)) (andalso (save_temp E) (ret (1::int)))
      (d, w\<lparr>printed := printed w @ [line]\<rparr>) = (r, (d', w'))"
    by (simp add: andalso_Ret)
  from close_then_save [OF this] show ?thesis by simp
qed

lemma error_handler:
  assumes "andalso (on_world (print line))
            (andalso (on_world (print msg))
            (andalso (on_world (close_session E)) (andalso (save_temp E) (ret (1::int))))) (d, w) =
           (r, (d', w'))"
  shows "d' = d \<and> shots w' = shots w \<and>
         ((r = Ret 1 \<and> disk w' = (disk w)(temp_path \<mapsto> d)) \<or>
          ((\<exists>e. r = Raise e) \<and> disk w' = disk w))"
proof -
  have "on_world (print line) (d, w) = (Ret (), (d, w\<lparr>printed := printed w @ [line]\<rparr>))"
    by (simp add: on_world_def print_def)
  with assms have "andalso (on_world (print msg))
            (andalso (on_world (close_session E)) (andalso (save_temp E) (ret (1::int))))
      (d, w\<lparr>printed := printed w @ [line]\<rparr>) = (r, (d', w'))"
    by (simp add: andalso_Ret)
  from interrupt_handler [OF this] show ?thesis by simp
qed

lemma fetch_all_cards_run:
  assumes load: "load_dictionary E source_dir w = (Ret (Some d), w1)"
    and body: "fetch_all_cards_try E (d, w1) = (rt, (d', w2))"
    and run: "fetch_all_cards E w = (r, w')"
  shows "shots w' = shots w2 \<and>
         (case rt of
            Ret v \<Rightarrow> r = Ret v \<and> w' = w2
          | Raise e \<Rightarrow>
              (r = Ret 1 \<and> disk w' = (disk w2)(temp_path \<mapsto> d')) \<or>
              ((\<exists>e'. r = Raise e') \<and> disk w' = disk w2))"
proof (cases rt)
  case (Ret v)
  with load body run show ?thesis
    by (auto simp: fetch_all_cards_def andthen_def with_local_def except_both_def)
next
  case (Raise e)
  show ?thesis
  proof (cases e)
    case KeyboardInterrupt
    obtain rh dh wh where h: "andalso (on_world (print
          (CHR 0x0A # ''Process interrupted by user. The dictionary will be saved to temp.json.'')))
        (andalso (on_world (close_session E)) (andalso (save_temp E) (ret (1::int)))) (d', w2) =
        (rh, (dh, wh))"
      by (metis surj_pair)
    with load body run Raise KeyboardInterrupt have "r = rh" "w' = wh"
      by (auto simp: fetch_all_cards_def andthen_def with_local_def except_both_def)
    with interrupt_handler [OF h] Raise show ?thesis by simp
  next
    case (Exception msg)
    obtain rh dh wh where h: "andalso (on_world (print
          ''An error occurred. The dictionary will be saved to temp.json.''))
        (andalso (on_world (print msg))
        (andalso (on_world (close_session E)) (andalso (save_temp E) (ret (1::int))))) (d', w2) =
        (rh, (dh, wh))"
      by (metis surj_pair)
    with load body run Raise Exception have "r = rh" "w' = wh"
      by (auto simp: fetch_all_cards_def andthen_def with_local_def except_both_def)
    with error_handler [OF h] Raise show ?thesis by simp
  qed
qed





text \<open>The equations that evaluate whole runs.\<close>

lemmas session_simps = init_session_def ensure_dirs_exist_def ensure_dirs_exist_try_def
  install_ublock_def install_ublock_try_def remove_cookies_def click_button_def
  close_session_def close_session_try_def

lemmas path_simps = index_path_def temp_path_def source_dir_def output_dir_def card_path_def

lemmas whole_run_simps = fetch_all_cards_from_faction_def fetch_all_cards_def
  fetch_all_cards_try_def fetch_all_cards_logic_def save_temp_def
  fetch_all_cards_from_faction_logic_def fetch_card_from_unit_def session_simps run_simps
  fail_at_def start_def path_simps




text \<open>
  C3, as amended. For \<^verbatim>\<open>fetch_all_cards\<close>: when the \<^verbatim>\<open>try\<close> block is left by an
  exception (the interruption by the user, or an error that is not absorbed inside the
  block) and the operation returns, it returns 1 after writing the mapping as the block left
  it to the file \<^verbatim>\<open>temp\<close>, which is not the file \<^verbatim>\<open>index\<close>; the file
  \<^verbatim>\<open>index\<close> keeps its contents.
\<close>

theorem snapshot_on_interruption:
  assumes load: "load_dictionary E source_dir w = (Ret (Some d), w1)"
    and body: "fetch_all_cards_try E (d, w1) = (Raise e, (d', w2))"
    and run: "fetch_all_cards E w = (Ret v, w')"
  shows "v = 1 \<and> disk w' = (disk w)(temp_path \<mapsto> d') \<and> temp_path \<noteq> index_path \<and>
         disk w' index_path = disk w index_path"
proof -
  from silentD [OF silent_load_dictionary load] have "disk w1 = disk w" by simp
  moreover from fetch_all_cards_try_run [OF body] have "disk w2 = disk w1" by simp
  moreover from fetch_all_cards_run [OF load body run]
  have "v = 1 \<and> disk w' = (disk w2)(temp_path \<mapsto> d')" by simp
  moreover have "temp_path \<noteq> index_path" by (simp add: temp_path_def index_path_def)
  ultimately show ?thesis by simp
qed

theorem snapshot_on_interruption_witness:
  "fetch_all_cards_try (fail_at 16 KeyboardInterrupt)
     ([(''orks'', [''Boyz'', ''Gretchin''])],
      (start [index_path \<mapsto> [(''orks'', [''Boyz'', ''Gretchin''])]])\<lparr>clock := 1\<rparr>) =
   (Raise KeyboardInterrupt,
    ([(''orks'', [''Gretchin''])],
     (start [index_path \<mapsto> [(''orks'', [''Boyz'', ''Gretchin''])]])
       \<lparr>clock := 17, shots := [''./out/factions/orks/Boyz.png''],
        check_for_cookies := False\<rparr>)) \<and>
   fst (fetch_all_cards (fail_at 16 KeyboardInterrupt)
     (start [index_path \<mapsto> [(''orks'', [''Boyz'', ''Gretchin''])]])) = Ret 1 \<and>
   disk (snd (fetch_all_cards (fail_at 16 KeyboardInterrupt)
     (start [index_path \<mapsto> [(''orks'', [''Boyz'', ''Gretchin''])]]))) =
     [index_path \<mapsto> [(''orks'', [''Boyz'', ''Gretchin''])],
      temp_path \<mapsto> [(''orks'', [''Gretchin''])]]"
proof -
  let ?E = "fail_at 16 KeyboardInterrupt"
  let ?w = "start [index_path \<mapsto> [(''orks'', [''Boyz'', ''Gretchin''])]]"
  have load: "load_dictionary ?E source_dir ?w =
      (Ret (Some [(''orks'', [''Boyz'', ''Gretchin''])]), ?w\<lparr>clock := 1\<rparr>)"
    by (simp add: run_simps fail_at_def start_def path_simps)
  have body: "fetch_all_cards_try ?E ([(''orks'', [''Boyz'', ''Gretchin''])], ?w\<lparr>clock := 1\<rparr>) =
   (Raise KeyboardInterrupt,
    ([(''orks'', [''Gretchin''])],
     ?w\<lparr>clock := 17, shots := [''./out/factions/orks/Boyz.png''],
        check_for_cookies := False\<rparr>))"
    by (simp add: whole_run_simps)
  have r: "fst (fetch_all_cards ?E ?w) = Ret 1"
    by (simp add: whole_run_simps)
  then have run: "fetch_all_cards ?E ?w = (Ret 1, snd (fetch_all_cards ?E ?w))"
    by (metis prod.collapse)
  from snapshot_on_interruption [OF load body run]
  have "disk (snd (fetch_all_cards ?E ?w)) =
     [index_path \<mapsto> [(''orks'', [''Boyz'', ''Gretchin''])],
      temp_path \<mapsto> [(''orks'', [''Gretchin''])]]"
    by (simp add: start_def)
  with body r show ?thesis by blast
qed

text \<open>
  The claim C3 as stated fails: \<^verbatim>\<open>fetch_all_cards_from_faction\<close>, interrupted during a
  capture, returns 1 and writes no file \<^verbatim>\<open>temp\<close>; and \<^verbatim>\<open>fetch_all_cards\<close>, when a
  capture raises an error, returns 0 and writes no file \<^verbatim>\<open>temp\<close> either.
\<close>

theorem no_snapshot_counterexample:
  "fst (fetch_all_cards_from_faction (fail_at 12 KeyboardInterrupt) ''orks''
          (start [index_path \<mapsto> [(''orks'', [''Boyz''])]])) = Ret 1 \<and>
   disk (snd (fetch_all_cards_from_faction (fail_at 12 KeyboardInterrupt) ''orks''
          (start [index_path \<mapsto> [(''orks'', [''Boyz''])]]))) temp_path = None \<and>
   fst (fetch_all_cards (fail_at 13 (Exception ''timeout''))
          (start [index_path \<mapsto> [(''orks'', [''Boyz''])]])) = Ret 0 \<and>
   disk (snd (fetch_all_cards (fail_at 13 (Exception ''timeout''))
          (start [index_path \<mapsto> [(''orks'', [''Boyz''])]]))) temp_path = None"
  by (simp add: fetch_all_cards_from_faction_def fetch_all_cards_def fetch_all_cards_try_def
      fetch_all_cards_logic_def save_temp_def
      fetch_all_cards_from_faction_logic_def fetch_card_from_unit_def session_simps run_simps
      fail_at_def start_def path_simps)

section \<open>The return code of \<^verbatim>\<open>fetch_all_cards\<close>\<close>

lemma uninterrupted_ret: "uninterrupted (ret v)"
  by (simp add: uninterrupted_def ret_def)

lemma uninterrupted_andthen:
  "uninterrupted m \<Longrightarrow> (\<And>v. uninterrupted (k v)) \<Longrightarrow> uninterrupted (andthen m k)"
  unfolding uninterrupted_def andthen_def
  by (auto split: prod.splits result.splits) (metis fst_conv)+

lemma uninterrupted_andalso:
  "uninterrupted m \<Longrightarrow> uninterrupted k \<Longrightarrow> uninterrupted (andalso m k)"
  unfolding andalso_def by (rule uninterrupted_andthen)

lemma uninterrupted_except_Exception:
  "uninterrupted m \<Longrightarrow> (\<And>msg. uninterrupted (h msg)) \<Longrightarrow> uninterrupted (except_Exception m h)"
  unfolding uninterrupted_def except_Exception_def
  by (auto split: prod.splits result.splits exn.splits) (metis fst_conv)+

lemma uninterrupted_on_world: "uninterrupted m \<Longrightarrow> uninterrupted (on_world m)"
  unfolding uninterrupted_def on_world_def
  by (auto split: prod.splits) (metis fst_conv)

lemma uninterrupted_extern:
  "\<forall>t c. raises E t c \<noteq> Some KeyboardInterrupt \<Longrightarrow> uninterrupted (extern E c)"
  by (auto simp: uninterrupted_def extern_def split: option.splits)

lemma uninterrupted_wait_until:
  "\<forall>t c. raises E t c \<noteq> Some KeyboardInterrupt \<Longrightarrow> uninterrupted (wait_until E c xpath)"
  by (auto simp: uninterrupted_def wait_until_def andthen_def ret_def extern_def
      split: option.splits)

lemma uninterrupted_screenshot:
  "\<forall>t c. raises E t c \<noteq> Some KeyboardInterrupt \<Longrightarrow> uninterrupted (screenshot E path)"
  by (auto simp: uninterrupted_def screenshot_def andthen_def extern_def split: option.splits)

lemma uninterrupted_fetch_card_from_unit:
  assumes "\<forall>t c. raises E t c \<noteq> Some KeyboardInterrupt"
  shows "uninterrupted (fetch_card_from_unit E faction unit)"
  unfolding fetch_card_from_unit_def
  by (intro uninterrupted_andalso uninterrupted_andthen uninterrupted_extern
      uninterrupted_wait_until uninterrupted_screenshot assms)

lemma uninterrupted_lookup: "uninterrupted (lookup faction)"
  by (simp add: uninterrupted_def lookup_def split: option.splits)

lemma uninterrupted_remove_unit: "uninterrupted (remove_unit faction unit)"
  by (auto simp: uninterrupted_def remove_unit_def andthen_def lookup_def split: option.splits)

lemma uninterrupted_units_loop:
  assumes "\<forall>t c. raises E t c \<noteq> Some KeyboardInterrupt"
  shows "uninterrupted (units_loop E faction queue)"
proof (induction queue)
  case Nil
  show ?case by (simp add: uninterrupted_ret)
next
  case (Cons unit queue)
  then show ?case
    by (simp add: uninterrupted_andalso uninterrupted_on_world uninterrupted_remove_unit
        uninterrupted_fetch_card_from_unit [OF assms])
qed

lemma uninterrupted_logic:
  assumes "\<forall>t c. raises E t c \<noteq> Some KeyboardInterrupt"
  shows "uninterrupted (fetch_all_cards_from_faction_logic E faction)"
  unfolding fetch_all_cards_from_faction_logic_def loading_def
  by (intro uninterrupted_except_Exception uninterrupted_andthen uninterrupted_andalso
      uninterrupted_lookup uninterrupted_units_loop uninterrupted_ret assms)

lemma uninterrupted_factions_loop:
  assumes "\<forall>t c. raises E t c \<noteq> Some KeyboardInterrupt"
  shows "uninterrupted (factions_loop E fs)"
proof (induction fs)
  case Nil
  show ?case by (simp add: uninterrupted_ret)
next
  case (Cons f fs)
  then show ?case
    by (simp add: uninterrupted_andalso uninterrupted_logic [OF assms])
qed

lemma uninterrupted_fetch_all_cards_logic:
  assumes "\<forall>t c. raises E t c \<noteq> Some KeyboardInterrupt"
  shows "uninterrupted (fetch_all_cards_logic E)"
proof -
  have "uninterrupted (\<lambda>s. factions_loop E (map fst (fst s)) s)"
    using uninterrupted_factions_loop [OF assms] by (simp add: uninterrupted_def)
  then show ?thesis
    unfolding fetch_all_cards_logic_def
    by (intro uninterrupted_except_Exception uninterrupted_andalso uninterrupted_ret)
qed

text \<open>
  C10. Once the mapping is loaded and the session is initialised, \<^verbatim>\<open>fetch_all_cards\<close>
  returns 0 whenever no external call is interrupted by the user, whatever errors the
  captures raise: an error of a capture is caught by
  \<^verbatim>\<open>fetch_all_cards_from_faction_logic\<close>, whose result \<^verbatim>\<open>fetch_all_cards_logic\<close>
  does not look at. So a return value of 1 needs an interruption, or a failure before the
  captures (no dictionary, or session initialisation).
\<close>

theorem fetch_all_cards_return_code:
  assumes load: "load_dictionary E source_dir w = (Ret (Some d), w1)"
    and init: "init_session E w1 = (Ret (), w2)"
    and calm: "\<forall>t c. raises E t c \<noteq> Some KeyboardInterrupt"
  shows "fst (fetch_all_cards E w) = Ret 0"
proof -
  obtain rl dl wl where logic: "fetch_all_cards_logic E (d, w2) = (rl, (dl, wl))"
    by (metis surj_pair)
  from fetch_all_cards_logic_run [OF logic] uninterrupted_fetch_all_cards_logic [OF calm] logic
  have rl: "rl = Ret 0" unfolding uninterrupted_def by (metis fst_conv)
  obtain rc wc where close: "close_session E wl = (rc, wc)" by (metis surj_pair)
  from close_session_effect [OF close] calm have "\<exists>v. rc = Ret v"
    by (auto split: option.splits exn.splits)
  then obtain v where rc: "rc = Ret v" ..
  have "on_world (init_session E) (d, w1) = (Ret (), (d, w2))"
    using init by (simp add: on_world_def)
  moreover have "on_world (close_session E) (dl, wl) = (Ret v, (dl, wc))"
    using close rc by (simp add: on_world_def)
  ultimately have body: "fetch_all_cards_try E (d, w1) = (Ret 0, (dl, wc))"
    using logic rl by (simp add: fetch_all_cards_try_def andalso_Ret ret_def)
  obtain r w' where run: "fetch_all_cards E w = (r, w')" by (metis surj_pair)
  from fetch_all_cards_run [OF load body run] run show ?thesis by simp
qed

theorem fetch_all_cards_return_code_witness:
  "load_dictionary (fail_at 13 (Exception ''timeout'')) source_dir
     (start [index_path \<mapsto> [(''orks'', [''Boyz'']), (''tau'', [''Kroot''])]]) =
   (Ret (Some [(''orks'', [''Boyz'']), (''tau'', [''Kroot''])]),
    (start [index_path \<mapsto> [(''orks'', [''Boyz'']), (''tau'', [''Kroot''])]])\<lparr>clock := 1\<rparr>) \<and>
   fst (init_session (fail_at 13 (Exception ''timeout''))
     ((start [index_path \<mapsto> [(''orks'', [''Boyz'']), (''tau'', [''Kroot''])]])\<lparr>clock := 1\<rparr>)) =
     Ret () \<and>
   fst (fetch_all_cards (fail_at 13 (Exception ''timeout''))
     (start [index_path \<mapsto> [(''orks'', [''Boyz'']), (''tau'', [''Kroot''])]])) = Ret 0 \<and>
   shots (snd (fetch_all_cards (fail_at 13 (Exception ''timeout''))
     (start [index_path \<mapsto> [(''orks'', [''Boyz'']), (''tau'', [''Kroot''])]]))) =
     [''./out/factions/tau/Kroot.png'']"
proof -
  let ?E = "fail_at 13 (Exception ''timeout'')"
  let ?w = "start [index_path \<mapsto> [(''orks'', [''Boyz'']), (''tau'', [''Kroot''])]]"
  have load: "load_dictionary ?E source_dir ?w =
      (Ret (Some [(''orks'', [''Boyz'']), (''tau'', [''Kroot''])]), ?w\<lparr>clock := 1\<rparr>)"
    by (simp add: run_simps fail_at_def start_def path_simps)
  have i: "fst (init_session ?E (?w\<lparr>clock := 1\<rparr>)) = Ret ()"
    by (simp add: whole_run_simps)
  then have init: "init_session ?E (?w\<lparr>clock := 1\<rparr>) =
      (Ret (), snd (init_session ?E (?w\<lparr>clock := 1\<rparr>)))"
    by (metis prod.collapse)
  have calm: "\<forall>t c. raises ?E t c \<noteq> Some KeyboardInterrupt"
    by (simp add: fail_at_def)
  have s: "shots (snd (fetch_all_cards ?E ?w)) = [''./out/factions/tau/Kroot.png'']"
    by (simp add: whole_run_simps)
  from fetch_all_cards_return_code [OF load init calm] load i s show ?thesis by blast
qed

section \<open>Operations that signal failure by their result\<close>

lemma returns_zero_ret: "returns_zero (ret 0)"
  by (simp add: returns_zero_def ret_def)

lemma returns_zero_andthen: "(\<And>v. returns_zero (k v)) \<Longrightarrow> returns_zero (andthen m k)"
  unfolding returns_zero_def andthen_def
  by (auto split: prod.splits result.splits) (metis fst_conv result.simps(5))+

lemma returns_zero_andalso: "returns_zero k \<Longrightarrow> returns_zero (andalso m k)"
  unfolding andalso_def by (rule returns_zero_andthen)

lemma returns_zero_final: "returns_zero (\<lambda>w. (Ret 0, f w))"
  by (simp add: returns_zero_def)

lemma signal_try:
  assumes "returns_zero m"
  shows "fst (loading (except_Exception m (\<lambda>_. ret 1)) w) = signal (fst (m w))"
proof (cases "m w")
  case (Pair r w')
  with assms have "case r of Ret v \<Rightarrow> v = 0 | Raise _ \<Rightarrow> True"
    unfolding returns_zero_def by (metis fst_conv)
  with Pair show ?thesis
    by (auto simp: loading_def except_Exception_def signal_def ret_def
        split: result.splits exn.splits)
qed

lemma returns_zero_ensure_dirs_exist_try: "returns_zero (ensure_dirs_exist_try E)"
  unfolding ensure_dirs_exist_try_def by (intro returns_zero_andalso returns_zero_ret)

lemma returns_zero_install_ublock_try: "returns_zero (install_ublock_try E)"
  unfolding install_ublock_try_def
  by (intro returns_zero_andthen returns_zero_andalso returns_zero_ret)

lemma returns_zero_close_session_try: "returns_zero (close_session_try E)"
  unfolding close_session_try_def by (intro returns_zero_andalso returns_zero_ret)

lemma returns_zero_fetch_factions_names_try: "returns_zero (fetch_factions_names_try E)"
  unfolding fetch_factions_names_try_def
  by (intro returns_zero_andthen returns_zero_andalso returns_zero_final)

lemma returns_zero_fetch_units_names_from_faction_try:
  "returns_zero (fetch_units_names_from_faction_try E faction_name)"
  unfolding fetch_units_names_from_faction_try_def
  by (intro returns_zero_andthen returns_zero_andalso returns_zero_final)

lemma fetch_card_from_unit_result:
  "fst (fetch_card_from_unit E faction unit w) =
     (case first_failure E (clock w) (card_steps faction unit) of
        None \<Rightarrow> Ret ()
      | Some e \<Rightarrow> Raise e)"
  by (simp add: fetch_card_from_unit_def card_steps_def screenshot_def wait_until_def
      andalso_def andthen_def extern_def ret_def split: option.splits)

lemma logic_first_capture_raises:
  assumes q: "map_of d faction = Some (unit # queue)"
    and c: "fst (fetch_card_from_unit E faction unit w) = Raise e"
  shows "fetch_all_cards_from_faction_logic E faction (d, w) =
         (signal (Raise e), (d, snd (fetch_card_from_unit E faction unit w)))"
proof -
  obtain w1 where c1: "fetch_card_from_unit E faction unit w = (Raise e, w1)"
    using c by (cases "fetch_card_from_unit E faction unit w") auto
  then have "on_world (fetch_card_from_unit E faction unit) (d, w) = (Raise e, (d, w1))"
    by (simp add: on_world_def)
  then have "units_loop E faction (unit # queue) (d, w) = (Raise e, (d, w1))"
    by (simp add: andalso_Raise)
  with q have "fetch_all_cards_from_faction_logic E faction (d, w) = (signal (Raise e), (d, w1))"
    by (cases e)
       (simp_all add: fetch_all_cards_from_faction_logic_def loading_def except_Exception_def
          andthen_def andalso_def lookup_def ret_def signal_def)
  with c1 show ?thesis by simp
qed

text \<open>
  C4, as amended. Each of \<^verbatim>\<open>ensure_dirs_exist\<close>, \<^verbatim>\<open>install_ublock\<close>,
  \<^verbatim>\<open>close_session\<close>, \<^verbatim>\<open>fetch_factions_names\<close> and
  \<^verbatim>\<open>fetch_units_names_from_faction\<close> returns 0 when its \<^verbatim>\<open>try\<close> block completes and
  1 when an \<^verbatim>\<open>Exception\<close> is raised in it, and does not propagate that exception; an
  interruption by the user is not caught (\<open>signal\<close>). \<^verbatim>\<open>fetch_card_from_unit\<close> has no
  handler: it returns \<^verbatim>\<open>None\<close> when none of its five steps raises, and otherwise raises
  the exception of the first step that fails (\<open>first_failure\<close>). Its caller
  \<^verbatim>\<open>fetch_all_cards_from_faction_logic\<close> turns an \<^verbatim>\<open>Exception\<close> of the capture into the
  result 1, and lets an interruption through, leaving the mapping as it was.
\<close>

theorem wrapped_operations_signal:
  "fst (ensure_dirs_exist E w) = signal (fst (ensure_dirs_exist_try E w)) \<and>
   fst (install_ublock E w) = signal (fst (install_ublock_try E w)) \<and>
   fst (close_session E w) = signal (fst (close_session_try E w)) \<and>
   fst (fetch_factions_names E w) = signal (fst (fetch_factions_names_try E w)) \<and>
   fst (fetch_units_names_from_faction E faction_name w) =
     signal (fst (fetch_units_names_from_faction_try E faction_name w)) \<and>
   fst (fetch_card_from_unit E faction unit w) =
     (case first_failure E (clock w) (card_steps faction unit) of
        None \<Rightarrow> Ret ()
      | Some e \<Rightarrow> Raise e) \<and>
   (map_of d faction = Some (unit # queue) \<longrightarrow>
    fst (fetch_card_from_unit E faction unit w) = Raise e \<longrightarrow>
      fetch_all_cards_from_faction_logic E faction (d, w) =
        (signal (Raise e), (d, snd (fetch_card_from_unit E faction unit w))))"
proof (intro conjI impI)
  show "fst (ensure_dirs_exist E w) = signal (fst (ensure_dirs_exist_try E w))"
    unfolding ensure_dirs_exist_def by (rule signal_try [OF returns_zero_ensure_dirs_exist_try])
  show "fst (install_ublock E w) = signal (fst (install_ublock_try E w))"
    unfolding install_ublock_def by (rule signal_try [OF returns_zero_install_ublock_try])
  show "fst (close_session E w) = signal (fst (close_session_try E w))"
    unfolding close_session_def by (rule signal_try [OF returns_zero_close_session_try])
  show "fst (fetch_factions_names E w) = signal (fst (fetch_factions_names_try E w))"
    unfolding fetch_factions_names_def
    by (rule signal_try [OF returns_zero_fetch_factions_names_try])
  show "fst (fetch_units_names_from_faction E faction_name w) =
     signal (fst (fetch_units_names_from_faction_try E faction_name w))"
    unfolding fetch_units_names_from_faction_def
    by (rule signal_try [OF returns_zero_fetch_units_names_from_faction_try])
  show "fst (fetch_card_from_unit E faction unit w) =
     (case first_failure E (clock w) (card_steps faction unit) of
        None \<Rightarrow> Ret ()
      | Some e \<Rightarrow> Raise e)"
    by (rule fetch_card_from_unit_result)
next
  assume "map_of d faction = Some (unit # queue)"
    and "fst (fetch_card_from_unit E faction unit w) = Raise e"
  then show "fetch_all_cards_from_faction_logic E faction (d, w) =
        (signal (Raise e), (d, snd (fetch_card_from_unit E faction unit w)))"
    by (rule logic_first_capture_raises)
qed

theorem wrapped_operations_signal_witness:
  "map_of [(''orks'', [''Boyz'', ''Gretchin''])] ''orks'' = Some (''Boyz'' # [''Gretchin'']) \<and>
   first_failure (fail_at 3 (Exception ''timeout'')) 0 (card_steps ''orks'' ''Boyz'') =
     Some (Exception ''timeout'') \<and>
   fst (fetch_card_from_unit (fail_at 3 (Exception ''timeout'')) ''orks'' ''Boyz''
          (start Map.empty)) = Raise (Exception ''timeout'') \<and>
   fetch_all_cards_from_faction_logic (fail_at 3 (Exception ''timeout'')) ''orks''
     ([(''orks'', [''Boyz'', ''Gretchin''])], start Map.empty) =
   (Ret 1, ([(''orks'', [''Boyz'', ''Gretchin''])], (start Map.empty)\<lparr>clock := 4\<rparr>))"
proof -
  let ?E = "fail_at 3 (Exception ''timeout'')"
  have q: "map_of [(''orks'', [''Boyz'', ''Gretchin''])] ''orks'' = Some (''Boyz'' # [''Gretchin''])"
    by simp
  have f: "first_failure ?E 0 (card_steps ''orks'' ''Boyz'') = Some (Exception ''timeout'')"
    by (simp add: card_steps_def fail_at_def)
  have c: "fst (fetch_card_from_unit ?E ''orks'' ''Boyz'' (start Map.empty)) =
      Raise (Exception ''timeout'')"
    by (simp add: fetch_card_from_unit_def run_simps fail_at_def start_def)
  have s: "snd (fetch_card_from_unit ?E ''orks'' ''Boyz'' (start Map.empty)) =
      (start Map.empty)\<lparr>clock := 4\<rparr>"
    by (simp add: fetch_card_from_unit_def run_simps fail_at_def start_def)
  from wrapped_operations_signal [where E = ?E and w = "start Map.empty" and faction = "''orks''"
      and unit = "''Boyz''" and queue = "[''Gretchin'']" and e = "Exception ''timeout''"
      and d = "[(''orks'', [''Boyz'', ''Gretchin''])]"] q c
  have "fetch_all_cards_from_faction_logic ?E ''orks''
     ([(''orks'', [''Boyz'', ''Gretchin''])], start Map.empty) =
   (Ret 1, ([(''orks'', [''Boyz'', ''Gretchin''])], (start Map.empty)\<lparr>clock := 4\<rparr>))"
    by (simp add: s signal_def)
  with q f c show ?thesis by blast
qed

text \<open>
  The claim C4 as stated fails: \<^verbatim>\<open>fetch_card_from_unit\<close> propagates the exception of
  its first step, and returns \<^verbatim>\<open>None\<close>, not 0, on success; \<^verbatim>\<open>fetch_factions_names\<close>
  propagates an interruption; and \<^verbatim>\<open>remove_cookies\<close> propagates an error of the
  navigation that precedes its first \<^verbatim>\<open>try\<close> block.
\<close>

theorem exception_propagates_counterexample:
  "fst (fetch_card_from_unit (fail_at 0 (Exception ''timeout'')) ''orks'' ''Boyz''
          (start Map.empty)) = Raise (Exception ''timeout'') \<and>
   fst (fetch_card_from_unit (fail_at 99 (Exception ''timeout'')) ''orks'' ''Boyz''
          (start Map.empty)) = Ret () \<and>
   fst (fetch_factions_names (fail_at 0 KeyboardInterrupt) (start Map.empty)) =
     Raise KeyboardInterrupt \<and>
   fst (remove_cookies (fail_at 0 (Exception ''timeout'')) (start Map.empty)) =
     Raise (Exception ''timeout'')"
  by (simp add: fetch_card_from_unit_def fetch_factions_names_def fetch_factions_names_try_def
      session_simps run_simps fail_at_def start_def)

section \<open>The run for one faction\<close>

lemma captures_only_silent: "silent m \<Longrightarrow> captures_only faction m"
  unfolding silent_def captures_only_def by (metis append_Nil2 list.simps(8))

lemma captures_only_andthen:
  assumes "captures_only faction m" and "\<And>v. captures_only faction (k v)"
  shows "captures_only faction (andthen m k)"
  unfolding captures_only_def
proof
  fix w
  obtain r w1 where m: "m w = (r, w1)" by (metis surj_pair)
  from assms(1) m obtain us where 1: "disk w1 = disk w" "shots w1 = shots w @ map (card_path faction) us"
    unfolding captures_only_def by (metis snd_conv)
  show "disk (snd (andthen m k w)) = disk w \<and>
        (\<exists>units. shots (snd (andthen m k w)) = shots w @ map (card_path faction) units)"
  proof (cases r)
    case (Raise e)
    with m 1 show ?thesis by (auto simp: andthen_def)
  next
    case (Ret v)
    from assms(2) [of v] obtain us2 where
      "disk (snd (k v w1)) = disk w1" "shots (snd (k v w1)) = shots w1 @ map (card_path faction) us2"
      unfolding captures_only_def by blast
    with 1 have "disk (snd (k v w1)) = disk w"
      "shots (snd (k v w1)) = shots w @ map (card_path faction) (us @ us2)" by simp_all
    with m Ret show ?thesis by (auto simp: andthen_def intro!: exI [of _ "us @ us2"])
  qed
qed

lemma captures_only_andalso:
  "captures_only faction m \<Longrightarrow> captures_only faction k \<Longrightarrow> captures_only faction (andalso m k)"
  unfolding andalso_def by (rule captures_only_andthen)

lemma captures_only_except_both:
  assumes "captures_only faction m" and "captures_only faction hk"
    and "\<And>e. captures_only faction (he e)"
  shows "captures_only faction (except_both m hk he)"
  unfolding captures_only_def
proof
  fix w
  obtain r w1 where m: "m w = (r, w1)" by (metis surj_pair)
  from assms(1) m obtain us where 1: "disk w1 = disk w" "shots w1 = shots w @ map (card_path faction) us"
    unfolding captures_only_def by (metis snd_conv)
  have step: "disk (snd (h w1)) = disk w \<and>
        (\<exists>units. shots (snd (h w1)) = shots w @ map (card_path faction) units)"
    if "captures_only faction h" for h :: "(world, 'a) prog"
  proof -
    from that obtain us2 where
      "disk (snd (h w1)) = disk w1" "shots (snd (h w1)) = shots w1 @ map (card_path faction) us2"
      unfolding captures_only_def by blast
    with 1 have "disk (snd (h w1)) = disk w"
      "shots (snd (h w1)) = shots w @ map (card_path faction) (us @ us2)" by simp_all
    then show ?thesis by blast
  qed
  show "disk (snd (except_both m hk he w)) = disk w \<and>
        (\<exists>units. shots (snd (except_both m hk he w)) = shots w @ map (card_path faction) units)"
  proof (cases r)
    case (Ret v)
    with m 1 show ?thesis by (auto simp: except_both_def)
  next
    case (Raise e)
    show ?thesis
    proof (cases e)
      case KeyboardInterrupt
      with m Raise step [OF assms(2)] show ?thesis by (simp add: except_both_def)
    next
      case (Exception msg)
      with m Raise step [OF assms(3) [of msg]] show ?thesis by (simp add: except_both_def)
    qed
  qed
qed

lemma captures_only_logic:
  "captures_only faction
     (with_local [(faction, queue)] (fetch_all_cards_from_faction_logic E faction))"
  unfolding captures_only_def
proof
  fix w
  obtain r d' w' where run:
    "fetch_all_cards_from_faction_logic E faction ([(faction, queue)], w) = (r, (d', w'))"
    by (metis surj_pair)
  have "map_of [(faction, queue)] faction = Some queue" by simp
  from fetch_all_cards_from_faction_logic_run [OF this run] obtain n where
    "shots w' = shots w @ map (card_path faction) (take n queue)" "disk w' = disk w" by blast
  with run show "disk (snd (with_local [(faction, queue)]
        (fetch_all_cards_from_faction_logic E faction) w)) = disk w \<and>
      (\<exists>units. shots (snd (with_local [(faction, queue)]
        (fetch_all_cards_from_faction_logic E faction) w)) = shots w @ map (card_path faction) units)"
    by (auto simp: with_local_def)
qed

lemma captures_only_fetch_all_cards_from_faction:
  "captures_only faction (fetch_all_cards_from_faction E faction)"
proof -
  have quit: "captures_only faction (andalso (close_session E) (ret (c::int)))" for c
    by (intro captures_only_silent silent_andalso silent_close_session silent_ret)
  have say: "captures_only faction (andalso (print line) (ret (1::int)))" for line
    by (intro captures_only_silent silent_andalso silent_print silent_ret)
  have rest: "captures_only faction
      (case cards_to_fetch of
            None \<Rightarrow>
              andalso (print ''No dictionary found. Please fetch the indexes first.'') (ret 1)
          | Some loaded \<Rightarrow>
              (case map_of loaded faction of
                 None \<Rightarrow> andalso (print ''The faction does not exist in the dictionary.'') (ret 1)
               | Some units \<Rightarrow>
                   andalso (with_local [(faction, units)]
                              (fetch_all_cards_from_faction_logic E faction))
                  (andalso (close_session E)
                  (ret (0::int)))))" for cards_to_fetch
    by (auto split: option.splits intro: say quit captures_only_andalso captures_only_logic)
  have hk: "captures_only faction
      (andalso (print interrupted_msg) (andalso (close_session E) (ret (1::int))))"
    by (intro captures_only_silent silent_andalso silent_print silent_close_session silent_ret)
  have he: "captures_only faction
      (andalso (close_session E) (andalso (print e) (ret (1::int))))" for e
    by (intro captures_only_silent silent_andalso silent_print silent_close_session silent_ret)
  show ?thesis
    unfolding fetch_all_cards_from_faction_def
    by (intro captures_only_except_both captures_only_andalso captures_only_andthen rest hk he
        captures_only_silent silent_init_session silent_load_dictionary)
qed

lemma logic_frame:
  "(map_of (fst (snd (fetch_all_cards_from_faction_logic E faction (d, w)))))(faction := None) =
   (map_of d)(faction := None)"
proof (cases "map_of d faction")
  case None
  then show ?thesis by (simp add: fetch_all_cards_from_faction_logic_missing)
next
  case (Some queue)
  obtain r d' w' where run: "fetch_all_cards_from_faction_logic E faction (d, w) = (r, (d', w'))"
    by (metis surj_pair)
  from fetch_all_cards_from_faction_logic_run [OF Some run] obtain n where
    "d' = AList.update faction (drop n queue) d" by blast
  with run show ?thesis by (simp add: AList.update_conv')
qed

text \<open>
  C9. A run of \<^verbatim>\<open>fetch_all_cards_from_faction\<close> writes no dictionary file: neither a
  snapshot nor the Index, so every persisted sequence stays as it was; the only card
  pictures it writes are those of units of the requested faction; and
  \<^verbatim>\<open>fetch_all_cards_from_faction_logic\<close> leaves the sequence of every other faction of
  the mapping it works on unchanged.
\<close>

theorem per_faction_run_frame:
  "disk (snd (fetch_all_cards_from_faction E faction w)) = disk w \<and>
   (\<exists>units. shots (snd (fetch_all_cards_from_faction E faction w)) =
      shots w @ map (card_path faction) units) \<and>
   (map_of (fst (snd (fetch_all_cards_from_faction_logic E faction (d, v)))))(faction := None) =
     (map_of d)(faction := None)"
  using captures_only_fetch_all_cards_from_faction [of faction E] logic_frame [of E faction d v]
  unfolding captures_only_def by blast

section \<open>Where the work queue comes from\<close>









section \<open>Enumerating and persisting the Index\<close>

lemma except_Exception_cases:
  assumes "except_Exception m h s = (r, t)"
  obtains (ok) v where "m s = (Ret v, t)" "r = Ret v"
        | (caught) msg s' where "m s = (Raise (Exception msg), s')" "h msg s' = (r, t)"
        | (interrupted) "m s = (Raise KeyboardInterrupt, t)" "r = Raise KeyboardInterrupt"
  using assms
  by (auto simp: except_Exception_def split: prod.splits result.splits exn.splits)


lemma silent_find_elements: "silent (find_elements E xpath)"
  by (simp add: silent_def find_elements_def andthen_def extern_def ret_def split: option.splits)







lemma units_step_idle: "units_step n w (w\<lparr>clock := c\<rparr>)"
  by (simp add: units_step_def)



lemma stepping_idle: "idle m \<Longrightarrow> stepping n m"
  unfolding idle_def stepping_def by (metis units_step_idle)



















end
